theory Spec2Isabelle
  imports Complex_Main
begin

section \<open>JavaScript values\<close>

text \<open>
  The repository builds arithmetic expression trees out of closures: every node is an
  object \<^verbatim>\<open>{ result, toString }\<close> (modules/arithmetic.js), checked on construction
  by modules/validation.js and rendered by modules/print.js.  The constructors are
  duck-typed, so their arguments range over JavaScript values, not only over nodes.

  Numbers are IEEE 754 doubles.  \<open>Finite r\<close> is the finite double of value \<open>r\<close>,
  \<open>Finite 0\<close> being the positive zero, and \<open>NegZero\<close> is the negative zero.  An operator
  returns the double nearest its exact result, ties going to the even significand,
  an infinity when that is beyond the largest double, and a zero of the result's sign
  when it is nearer to zero than to the smallest double.
\<close>

datatype jsnum = Finite rat | NegZero | PosInfinity | NegInfinity | NaN

definition pow2 :: "int \<Rightarrow> rat" where
  "pow2 k = (if 0 \<le> k then 2 ^ nat k else 1 / 2 ^ nat (- k))"

function bit_length :: "int \<Rightarrow> int" where
  "bit_length n = (if n \<le> 0 then 0 else bit_length (n div 2) + 1)"
  by pat_completeness auto
termination
  by (relation "measure nat") auto

declare bit_length.simps [simp del]

text \<open>The \<open>e\<close> with \<open>2^e \<le> q < 2^(e+1)\<close>, for a positive \<open>q\<close>.\<close>

definition floor_log2 :: "rat \<Rightarrow> int" where
  "floor_log2 q =
     (if 1 \<le> q then bit_length \<lfloor>q\<rfloor> - 1
      else - bit_length (\<lceil>1 / q\<rceil> - 1))"

definition round_half_even :: "rat \<Rightarrow> int" where
  "round_half_even x =
     (let f = \<lfloor>x\<rfloor>; d = x - of_int f
      in if d < 1 / 2 then f else if 1 / 2 < d then f + 1 else if even f then f else f + 1)"

text \<open>
  The value nearest a \<open>q \<ge> 0\<close> among the multiples \<open>m * 2^e\<close> with \<open>m < 2^53\<close> and
  \<open>e \<ge> - 1074\<close>: a double, unless it reaches \<open>2^1024\<close>.
\<close>

definition nearest :: "rat \<Rightarrow> rat" where
  "nearest q =
     (if q = 0 then 0
      else let e = max (floor_log2 q - 52) (- 1074)
           in of_int (round_half_even (q / pow2 e)) * pow2 e)"

definition signed_inf :: "bool \<Rightarrow> jsnum" where
  "signed_inf neg = (if neg then NegInfinity else PosInfinity)"

definition signed_zero :: "bool \<Rightarrow> jsnum" where
  "signed_zero neg = (if neg then NegZero else Finite 0)"

definition round_double :: "rat \<Rightarrow> jsnum" where
  "round_double q =
     (let r = nearest \<bar>q\<bar>
      in if 2 ^ 1024 \<le> r then signed_inf (q < 0)
         else if r = 0 then signed_zero (q < 0)
         else Finite (if q < 0 then - r else r))"

text \<open>
  A \<open>Finite r\<close> is a number of the language when \<open>r\<close> is a double: it rounds to
  itself.
\<close>

definition is_double :: "rat \<Rightarrow> bool" where
  "is_double r = (round_double r = Finite r)"

fun is_number :: "jsnum \<Rightarrow> bool" where
  "is_number (Finite r) = is_double r"
| "is_number n = True"

fun isFinite :: "jsnum \<Rightarrow> bool" where
  "isFinite (Finite r) = True"
| "isFinite NegZero = True"
| "isFinite _ = False"

fun finite_value :: "jsnum \<Rightarrow> rat option" where
  "finite_value (Finite r) = Some r"
| "finite_value NegZero = Some 0"
| "finite_value _ = None"

text \<open>\<^verbatim>\<open>n === 0\<close>, which holds of both zeros.\<close>

definition is_zero :: "jsnum \<Rightarrow> bool" where
  "is_zero n = (finite_value n = Some 0)"

fun is_neg :: "jsnum \<Rightarrow> bool" where
  "is_neg (Finite r) = (r < 0)"
| "is_neg NegZero = True"
| "is_neg NegInfinity = True"
| "is_neg _ = False"

fun num_neg :: "jsnum \<Rightarrow> jsnum" where
  "num_neg (Finite r) = (if r = 0 then NegZero else Finite (- r))"
| "num_neg NegZero = Finite 0"
| "num_neg PosInfinity = NegInfinity"
| "num_neg NegInfinity = PosInfinity"
| "num_neg NaN = NaN"

text \<open>
  The operators \<^verbatim>\<open>+ - * /\<close> on numbers.  A sum that is exactly zero is the positive
  zero unless both terms are the negative zero; the sign of a product and of a quotient
  is the product of the signs, also when the result is a zero or an infinity.
\<close>

definition num_add :: "jsnum \<Rightarrow> jsnum \<Rightarrow> jsnum" where
  "num_add a b =
     (case (finite_value a, finite_value b) of
        (Some x, Some y) \<Rightarrow>
          if a = NegZero \<and> b = NegZero then NegZero else round_double (x + y)
      | (Some x, None) \<Rightarrow> b
      | (None, Some y) \<Rightarrow> a
      | (None, None) \<Rightarrow> if a = b then a else NaN)"

definition num_sub :: "jsnum \<Rightarrow> jsnum \<Rightarrow> jsnum" where
  "num_sub a b = num_add a (num_neg b)"

definition num_mul :: "jsnum \<Rightarrow> jsnum \<Rightarrow> jsnum" where
  "num_mul a b =
     (if a = NaN \<or> b = NaN then NaN
      else case (finite_value a, finite_value b) of
        (Some x, Some y) \<Rightarrow>
          if x * y = 0 then signed_zero (is_neg a \<noteq> is_neg b) else round_double (x * y)
      | (Some x, None) \<Rightarrow> if x = 0 then NaN else signed_inf (is_neg a \<noteq> is_neg b)
      | (None, Some y) \<Rightarrow> if y = 0 then NaN else signed_inf (is_neg a \<noteq> is_neg b)
      | (None, None) \<Rightarrow> signed_inf (is_neg a \<noteq> is_neg b))"

definition num_div :: "jsnum \<Rightarrow> jsnum \<Rightarrow> jsnum" where
  "num_div a b =
     (if a = NaN \<or> b = NaN then NaN
      else case (finite_value a, finite_value b) of
        (Some x, Some y) \<Rightarrow>
          if y = 0 then (if x = 0 then NaN else signed_inf (is_neg a \<noteq> is_neg b))
          else if x = 0 then signed_zero (is_neg a \<noteq> is_neg b)
          else round_double (x / y)
      | (Some x, None) \<Rightarrow> signed_zero (is_neg a \<noteq> is_neg b)
      | (None, Some y) \<Rightarrow> signed_inf (is_neg a \<noteq> is_neg b)
      | (None, None) \<Rightarrow> NaN)"

text \<open>
  \<^verbatim>\<open>Number.prototype.toString\<close>.  A whole number below \<open>2^53\<close> in magnitude prints as its
  decimal digits, either zero as \<open>0\<close>.  The shortest round-trip decimal of any other
  finite double is not modelled: the text is left unspecified there.
\<close>

fun digits :: "nat \<Rightarrow> string" where
  "digits n =
     (if n < 10 then [''0123456789'' ! n]
      else digits (n div 10) @ [''0123456789'' ! (n mod 10)])"

declare digits.simps [simp del]

definition decimal :: "int \<Rightarrow> string" where
  "decimal i = (if i < 0 then ''-'' else []) @ digits (nat \<bar>i\<bar>)"

definition Number_toString :: "jsnum \<Rightarrow> string" where
  "Number_toString n =
     (case n of
        NaN \<Rightarrow> ''NaN''
      | PosInfinity \<Rightarrow> ''Infinity''
      | NegInfinity \<Rightarrow> ''-Infinity''
      | NegZero \<Rightarrow> ''0''
      | Finite r \<Rightarrow>
          (if of_int \<lfloor>r\<rfloor> = r \<and> \<bar>r\<bar> < 2 ^ 53 then decimal \<lfloor>r\<rfloor> else undefined))"

datatype error = Error string | TypeError | Thrown string

text \<open>
  \<open>Error m\<close> is \<^verbatim>\<open>new Error(m)\<close>, \<open>TypeError\<close> is raised by the language itself, and
  \<open>Thrown\<close> is any other value thrown by a function that is not the repository's.
  The repository throws three errors, told apart by their messages: that of
  validateValue, of validateExpression and of validateDivide.
\<close>

definition InvalidLiteral :: "string \<Rightarrow> error" where
  "InvalidLiteral v = Error (''The value \"'' @ v @ ''\" is not a numerical value!'')"

definition MissingOperand :: "string \<Rightarrow> error" where
  "MissingOperand operation =
     Error (''The operation \"'' @ operation @ ''\" is missing an operand!'')"

definition ZeroDivisor :: "string \<Rightarrow> error" where
  "ZeroDivisor txt =
     Error (''The right-hand side operand \"'' @ txt @ ''\" for Divide must be non-zero!'')"

text \<open>
  Values.  A primitive is \<^verbatim>\<open>undefined\<close>, \<^verbatim>\<open>null\<close>, a boolean, a number, a string, a
  bigint or a symbol (with its description).  Every other value is an object; of an
  object the code only ever reads the properties \<^verbatim>\<open>result\<close> and \<^verbatim>\<open>toString\<close>.  A
  property is absent (looked up on \<^verbatim>\<open>Object.prototype\<close>), holds a value that cannot
  be called, or holds a function; a function or an array is an object whose
  \<^verbatim>\<open>toString\<close> is a function.  Reading a property runs no code (there are no
  getters), and an object converts to text through \<^verbatim>\<open>toString\<close> (it defines neither
  \<^verbatim>\<open>valueOf\<close> nor \<^verbatim>\<open>Symbol.toPrimitive\<close>).  A function may read and change the
  program state \<open>'s\<close> and either returns or throws; following the interfaces of the
  README (\<^verbatim>\<open>result: () => number\<close>, \<^verbatim>\<open>toString: () => string\<close>) a \<^verbatim>\<open>result\<close>
  function returns a number and a \<^verbatim>\<open>toString\<close> function a string.
\<close>

type_synonym ('s, 'a) js = "'s \<Rightarrow> (error + 'a) \<times> 's"

datatype prim =
    JUndefined | JNull | JBoolean bool | JNumber jsnum | JString string
  | JBigInt int | JSymbol string

datatype ('s, 'a) property = Absent | Data prim | Method "('s, 'a) js"

datatype 's jsval =
    Prim prim
  | Object (result: "('s, jsnum) property") (toString: "('s, string) property")

subsection \<open>Statements and calls\<close>

definition js_return :: "'a \<Rightarrow> ('s, 'a) js" where
  "js_return x = (\<lambda>s. (Inr x, s))"

definition js_throw :: "error \<Rightarrow> ('s, 'a) js" where
  "js_throw e = (\<lambda>s. (Inl e, s))"

definition js_bind :: "('s, 'a) js \<Rightarrow> ('a \<Rightarrow> ('s, 'b) js) \<Rightarrow> ('s, 'b) js" where
  "js_bind m f = (\<lambda>s. case m s of (Inl e, s') \<Rightarrow> (Inl e, s') | (Inr x, s') \<Rightarrow> f x s')"

text \<open>\<^verbatim>\<open>!!p\<close> for a primitive \<open>p\<close>.\<close>

fun ToBoolean :: "prim \<Rightarrow> bool" where
  "ToBoolean JUndefined = False"
| "ToBoolean JNull = False"
| "ToBoolean (JBoolean b) = b"
| "ToBoolean (JNumber n) = (\<not> is_zero n \<and> n \<noteq> NaN)"
| "ToBoolean (JString s) = (s \<noteq> [])"
| "ToBoolean (JBigInt i) = (i \<noteq> 0)"
| "ToBoolean (JSymbol d) = True"

text \<open>
  \<^verbatim>\<open>!!v?.result\<close>: \<^verbatim>\<open>undefined\<close> and \<^verbatim>\<open>null\<close> short-circuit, the other primitives have
  no such property, an object yields what it holds.
\<close>

fun has_result :: "'s jsval \<Rightarrow> bool" where
  "has_result (Prim p) = False"
| "has_result (Object Absent t) = False"
| "has_result (Object (Data p) t) = ToBoolean p"
| "has_result (Object (Method f) t) = True"

text \<open>\<^verbatim>\<open>v.result()\<close>: anything but a function in that place is a \<^verbatim>\<open>TypeError\<close>.\<close>

fun call_result :: "'s jsval \<Rightarrow> ('s, jsnum) js" where
  "call_result (Object (Method f) t) = f"
| "call_result v = js_throw TypeError"

text \<open>
  \<^verbatim>\<open>v.toString()\<close>: booleans, numbers, strings, bigints and symbols have their own; an
  object without the property inherits \<^verbatim>\<open>Object.prototype.toString\<close>.
\<close>

fun call_toString :: "'s jsval \<Rightarrow> ('s, string) js" where
  "call_toString (Prim JUndefined) = js_throw TypeError"
| "call_toString (Prim JNull) = js_throw TypeError"
| "call_toString (Prim (JBoolean b)) = js_return (if b then ''true'' else ''false'')"
| "call_toString (Prim (JNumber n)) = js_return (Number_toString n)"
| "call_toString (Prim (JString s)) = js_return s"
| "call_toString (Prim (JBigInt i)) = js_return (decimal i)"
| "call_toString (Prim (JSymbol d)) = js_return (''Symbol('' @ d @ '')'')"
| "call_toString (Object r Absent) = js_return ''[object Object]''"
| "call_toString (Object r (Data p)) = js_throw TypeError"
| "call_toString (Object r (Method f)) = f"

text \<open>
  \<^verbatim>\<open>`${v}`\<close>, the conversion of a template literal.  A symbol does not convert: the
  language raises a \<^verbatim>\<open>TypeError\<close> (only an explicit \<^verbatim>\<open>String(v)\<close> or
  \<^verbatim>\<open>v.toString()\<close> gives its text).  For an object the conversion calls \<^verbatim>\<open>toString\<close>;
  when that cannot be called, the inherited \<^verbatim>\<open>valueOf\<close> returns the object itself and
  the conversion ends in a \<^verbatim>\<open>TypeError\<close>.
\<close>

fun ToString :: "'s jsval \<Rightarrow> ('s, string) js" where
  "ToString (Prim JUndefined) = js_return ''undefined''"
| "ToString (Prim JNull) = js_return ''null''"
| "ToString (Prim (JSymbol d)) = js_throw TypeError"
| "ToString v = call_toString v"

section \<open>utils: isNumber\<close>

text \<open>\<^verbatim>\<open>typeof value === "number" && Number.isFinite(value)\<close>\<close>

fun isNumber :: "'s jsval \<Rightarrow> bool" where
  "isNumber (Prim (JNumber n)) = isFinite n"
| "isNumber value = False"

section \<open>modules/print.js\<close>

definition printValue :: "'s jsval \<Rightarrow> ('s, string) js" where
  "printValue value = ToString value"

definition printExpression :: "'s jsval \<Rightarrow> 's jsval \<Rightarrow> string \<Rightarrow> ('s, string) js" where
  "printExpression left right operation =
     js_bind (call_toString left) (\<lambda>l.
     js_bind (call_toString right) (\<lambda>r.
     js_return (''('' @ l @ '' '' @ operation @ '' '' @ r @ '')'')))"

section \<open>modules/validation.js\<close>

definition validateValue :: "'s jsval \<Rightarrow> ('s, unit) js" where
  "validateValue value =
     (if \<not> isNumber value
      then js_bind (ToString value) (\<lambda>txt. js_throw (InvalidLiteral txt))
      else js_return ())"

definition validateExpression :: "'s jsval \<Rightarrow> 's jsval \<Rightarrow> string \<Rightarrow> ('s, unit) js" where
  "validateExpression left right operation =
     (if \<not> has_result left \<or> \<not> has_result right
      then js_throw (MissingOperand operation)
      else js_return ())"

definition validateDivide :: "'s jsval \<Rightarrow> 's jsval \<Rightarrow> string \<Rightarrow> ('s, unit) js" where
  "validateDivide left right operation =
     js_bind (validateExpression left right operation) (\<lambda>_.
     js_bind (call_result right) (\<lambda>r.
       if is_zero r
       then js_bind (call_toString right) (\<lambda>txt. js_throw (ZeroDivisor txt))
       else js_return ()))"

section \<open>modules/arithmetic.js\<close>

text \<open>
  The injected functions, \<^verbatim>\<open>validateValue\<close> and \<^verbatim>\<open>toString\<close> in the source, are
  called \<open>validate\<close> and \<open>toStr\<close>.

  \<^verbatim>\<open>result: () => value\<close>.  The closure is typed as a \<^verbatim>\<open>result\<close> function, which
  returns a number; the projection says nothing for a value that is not a number,
  which \<open>validateValue\<close> never lets through.
\<close>

fun the_number :: "'s jsval \<Rightarrow> jsnum" where
  "the_number (Prim (JNumber n)) = n"
| "the_number v = undefined"

definition makeValue ::
  "('s jsval \<Rightarrow> ('s, unit) js) \<Rightarrow> ('s jsval \<Rightarrow> ('s, string) js) \<Rightarrow>
   's jsval \<Rightarrow> ('s, 's jsval) js" where
  "makeValue validate toStr value =
     js_bind (validate value) (\<lambda>_.
     js_return (Object (Method (js_return (the_number value))) (Method (toStr value))))"

text \<open>
  The four binary constructors differ in the operation symbol and the operator of the
  \<^verbatim>\<open>result\<close> closure, which calls \<^verbatim>\<open>left.result()\<close> before \<^verbatim>\<open>right.result()\<close>.
\<close>

definition binary_result ::
  "(jsnum \<Rightarrow> jsnum \<Rightarrow> jsnum) \<Rightarrow> 's jsval \<Rightarrow> 's jsval \<Rightarrow> ('s, jsnum) js" where
  "binary_result f left right =
     js_bind (call_result left) (\<lambda>l.
     js_bind (call_result right) (\<lambda>r. js_return (f l r)))"

definition makeAdd ::
  "('s jsval \<Rightarrow> 's jsval \<Rightarrow> string \<Rightarrow> ('s, unit) js) \<Rightarrow>
   ('s jsval \<Rightarrow> 's jsval \<Rightarrow> string \<Rightarrow> ('s, string) js) \<Rightarrow>
   's jsval \<Rightarrow> 's jsval \<Rightarrow> ('s, 's jsval) js" where
  "makeAdd validate toStr left right =
     (let operation = ''+'' in
      js_bind (validate left right operation) (\<lambda>_.
      js_return (Object (Method (binary_result num_add left right))
                        (Method (toStr left right operation)))))"

definition makeSubtract ::
  "('s jsval \<Rightarrow> 's jsval \<Rightarrow> string \<Rightarrow> ('s, unit) js) \<Rightarrow>
   ('s jsval \<Rightarrow> 's jsval \<Rightarrow> string \<Rightarrow> ('s, string) js) \<Rightarrow>
   's jsval \<Rightarrow> 's jsval \<Rightarrow> ('s, 's jsval) js" where
  "makeSubtract validate toStr left right =
     (let operation = ''-'' in
      js_bind (validate left right operation) (\<lambda>_.
      js_return (Object (Method (binary_result num_sub left right))
                        (Method (toStr left right operation)))))"

definition makeMultiply ::
  "('s jsval \<Rightarrow> 's jsval \<Rightarrow> string \<Rightarrow> ('s, unit) js) \<Rightarrow>
   ('s jsval \<Rightarrow> 's jsval \<Rightarrow> string \<Rightarrow> ('s, string) js) \<Rightarrow>
   's jsval \<Rightarrow> 's jsval \<Rightarrow> ('s, 's jsval) js" where
  "makeMultiply validate toStr left right =
     (let operation = ''x'' in
      js_bind (validate left right operation) (\<lambda>_.
      js_return (Object (Method (binary_result num_mul left right))
                        (Method (toStr left right operation)))))"

text \<open>
  The division sign U+00F7 is written as the two bytes of its UTF-8 encoding, a
  \<open>string\<close> being a list of bytes.
\<close>

definition division_sign :: string where
  "division_sign = [CHR 0xC3, CHR 0xB7]"

definition makeDivide ::
  "('s jsval \<Rightarrow> 's jsval \<Rightarrow> string \<Rightarrow> ('s, unit) js) \<Rightarrow>
   ('s jsval \<Rightarrow> 's jsval \<Rightarrow> string \<Rightarrow> ('s, string) js) \<Rightarrow>
   's jsval \<Rightarrow> 's jsval \<Rightarrow> ('s, 's jsval) js" where
  "makeDivide validate toStr left right =
     (let operation = division_sign in
      js_bind (validate left right operation) (\<lambda>_.
      js_return (Object (Method (binary_result num_div left right))
                        (Method (toStr left right operation)))))"

section \<open>index.js: the public constructors and the tree\<close>

definition Value :: "'s jsval \<Rightarrow> ('s, 's jsval) js" where
  "Value = makeValue validateValue printValue"

definition Add :: "'s jsval \<Rightarrow> 's jsval \<Rightarrow> ('s, 's jsval) js" where
  "Add = makeAdd validateExpression printExpression"

definition Subtract :: "'s jsval \<Rightarrow> 's jsval \<Rightarrow> ('s, 's jsval) js" where
  "Subtract = makeSubtract validateExpression printExpression"

definition Multiply :: "'s jsval \<Rightarrow> 's jsval \<Rightarrow> ('s, 's jsval) js" where
  "Multiply = makeMultiply validateExpression printExpression"

definition Divide :: "'s jsval \<Rightarrow> 's jsval \<Rightarrow> ('s, 's jsval) js" where
  "Divide = makeDivide validateDivide printExpression"

abbreviation num :: "rat \<Rightarrow> 's jsval" where
  "num r \<equiv> Prim (JNumber (Finite r))"

text \<open>
  \<^verbatim>\<open>Divide(Add(Value(7), Multiply(Subtract(Value(3), Value(2)), Value(5))), Value(6))\<close>,
  the arguments of each call evaluated from left to right.
\<close>

definition tree :: "('s, 's jsval) js" where
  "tree =
     js_bind (Value (num 7)) (\<lambda>v7.
     js_bind (Value (num 3)) (\<lambda>v3.
     js_bind (Value (num 2)) (\<lambda>v2.
     js_bind (Subtract v3 v2) (\<lambda>sub.
     js_bind (Value (num 5)) (\<lambda>v5.
     js_bind (Multiply sub v5) (\<lambda>mul.
     js_bind (Add v7 mul) (\<lambda>add.
     js_bind (Value (num 6)) (\<lambda>v6.
     Divide add v6))))))))"

section \<open>Properties of functions, and example values\<close>

text \<open>A function that returns, without raising, in every state.\<close>

definition returns :: "('s, 'a) js \<Rightarrow> bool" where
  "returns f = (\<forall>s. \<exists>x s'. f s = (Inr x, s'))"

text \<open>
  A function that is pure and deterministic: it ends the same way in every state, and
  leaves the state as it is.
\<close>

definition pure_call :: "('s, 'a) js \<Rightarrow> bool" where
  "pure_call f = (\<exists>out. \<forall>s. f s = (out, s))"

text \<open>
  Objects that are not the repository's, over a state that is one counter.

  \<^verbatim>\<open>{ result: () => 1, toString: () => "1" }\<close> and the same for 2 and 3
\<close>

definition one :: "nat jsval" where
  "one = Object (Method (js_return (Finite 1))) (Method (js_return ''1''))"

definition two :: "nat jsval" where
  "two = Object (Method (js_return (Finite 2))) (Method (js_return ''2''))"

definition three :: "nat jsval" where
  "three = Object (Method (js_return (Finite 3))) (Method (js_return ''3''))"

text \<open>\<^verbatim>\<open>{ result: () => 1, toString: null }\<close>\<close>

definition unprintable :: "nat jsval" where
  "unprintable = Object (Method (js_return (Finite 1))) (Data JNull)"

text \<open>\<^verbatim>\<open>{ result: 5 }\<close>\<close>

definition uncallable :: "nat jsval" where
  "uncallable = Object (Data (JNumber (Finite 5))) Absent"

text \<open>\<^verbatim>\<open>{ result: () => 0, toString() { throw "boom" } }\<close>\<close>

definition zero_unprintable :: "nat jsval" where
  "zero_unprintable =
     Object (Method (js_return (Finite 0))) (Method (js_throw (Thrown ''boom'')))"

text \<open>\<^verbatim>\<open>{ toString() { throw "boom" } }\<close>\<close>

definition unconvertible :: "nat jsval" where
  "unconvertible = Object Absent (Method (js_throw (Thrown ''boom'')))"

text \<open>\<^verbatim>\<open>{ result: () => { throw "boom" } }\<close>\<close>

definition failing :: "nat jsval" where
  "failing = Object (Method (js_throw (Thrown ''boom''))) Absent"

text \<open>\<^verbatim>\<open>{ result: () => count++ }\<close>, \<^verbatim>\<open>count\<close> being the state\<close>

definition next_count :: "(nat, jsnum) js" where
  "next_count s = (Inr (Finite (of_nat s)), Suc s)"

definition counter :: "nat jsval" where
  "counter = Object (Method next_count) Absent"

text \<open>\<^verbatim>\<open>{ result() { log++; return 1 }, toString() { log++; return "1" } }\<close>\<close>

definition logged_result :: "(nat, jsnum) js" where
  "logged_result s = (Inr (Finite 1), Suc s)"

definition logged_toString :: "(nat, string) js" where
  "logged_toString s = (Inr ''1'', Suc s)"

definition logging :: "nat jsval" where
  "logging = Object (Method logged_result) (Method logged_toString)"

text \<open>
  test.js: the operand of \<^verbatim>\<open>Divide(Value(1), Add(Subtract(Value(7), Value(8)), Value(1)))\<close>,
  constructed in state 0.
\<close>

definition zero_sum :: "nat jsval" where
  "zero_sum =
     projr (fst (js_bind (Value (num 7)) (\<lambda>v7.
                 js_bind (Value (num 8)) (\<lambda>v8.
                 js_bind (Subtract v7 v8) (\<lambda>sub.
                 js_bind (Value (num 1)) (\<lambda>v1.
                 Add sub v1)))) 0))"

text \<open>
  The nodes \<^verbatim>\<open>Add(uncallable, unprintable)\<close>, \<^verbatim>\<open>Add(counter, two)\<close> and
  \<^verbatim>\<open>Add(two, three)\<close>, constructed in state 0.
\<close>

definition broken_sum :: "nat jsval" where
  "broken_sum = projr (fst (Add uncallable unprintable 0))"

definition counting_sum :: "nat jsval" where
  "counting_sum = projr (fst (Add counter two 0))"

definition five :: "nat jsval" where
  "five = projr (fst (Add two three 0))"

text \<open>
  test.js: \<^verbatim>\<open>Value(1)\<close>, \<^verbatim>\<open>Value(2)\<close> and \<^verbatim>\<open>Divide(Value(1), Value(2))\<close>, and then
  \<^verbatim>\<open>Multiply(Add(two, three), Divide(Value(1), Value(2)))\<close>, in state 0.
\<close>

definition literal_one :: "nat jsval" where
  "literal_one = projr (fst (Value (num 1) 0))"

definition literal_two :: "nat jsval" where
  "literal_two = projr (fst (Value (num 2) 0))"

definition half :: "nat jsval" where
  "half = projr (fst (Divide literal_one literal_two 0))"

definition five_halves :: "nat jsval" where
  "five_halves = projr (fst (Multiply five half 0))"

section \<open>Arithmetic on doubles\<close>

text \<open>The bit length and the binary logarithm.\<close>

lemma bit_length_nonneg: "0 \<le> bit_length n"
proof (induction n rule: bit_length.induct)
  case (1 n)
  then show ?case by (subst bit_length.simps) auto
qed

lemma bit_length_le: "n < 2 ^ m \<Longrightarrow> bit_length n \<le> int m"
proof (induction n arbitrary: m rule: bit_length.induct)
  case (1 n)
  show ?case
  proof (cases "n \<le> 0")
    case True
    then show ?thesis by (subst bit_length.simps) simp
  next
    case False
    with "1.prems" obtain k where m: "m = Suc k"
      by (cases m) auto
    from "1.prems" m have "n div 2 < 2 ^ k" by simp
    with "1.IH" False have "bit_length (n div 2) \<le> int k" by simp
    with False m show ?thesis by (subst bit_length.simps) simp
  qed
qed

lemma bit_length_pos: "0 < n \<Longrightarrow> 0 < bit_length n"
  using bit_length_nonneg [of "n div 2"] by (subst bit_length.simps) simp

lemma bit_length_lower: "0 < n \<Longrightarrow> 2 ^ nat (bit_length n - 1) \<le> n"
proof (induction n rule: bit_length.induct)
  case (1 n)
  show ?case
  proof (cases "n div 2 \<le> 0")
    case True
    with "1.prems" have "n = 1" by simp
    then show ?thesis by (simp add: bit_length.simps)
  next
    case False
    with "1.IH" "1.prems" have ih: "2 ^ nat (bit_length (n div 2) - 1) \<le> n div 2" by simp
    from False have p: "0 < bit_length (n div 2)" by (simp add: bit_length_pos)
    have "bit_length n = bit_length (n div 2) + 1"
      using "1.prems" by (subst bit_length.simps) simp
    then have "nat (bit_length n - 1) = Suc (nat (bit_length (n div 2) - 1))"
      using p by simp
    with ih show ?thesis by simp
  qed
qed

lemma bit_length_upper: "0 \<le> n \<Longrightarrow> n < 2 ^ nat (bit_length n)"
proof (induction n rule: bit_length.induct)
  case (1 n)
  show ?case
  proof (cases "n \<le> 0")
    case True
    with "1.prems" show ?thesis by (simp add: bit_length.simps)
  next
    case False
    with "1.IH" have ih: "n div 2 < 2 ^ nat (bit_length (n div 2))" by simp
    have "bit_length n = bit_length (n div 2) + 1"
      using False by (subst bit_length.simps) simp
    then have "nat (bit_length n) = Suc (nat (bit_length (n div 2)))"
      using bit_length_nonneg [of "n div 2"] by simp
    with ih show ?thesis by simp
  qed
qed


lemma pow2_powi: "pow2 k = 2 powi k"
  by (simp add: pow2_def power_int_def field_simps)

lemma pow2_pos: "0 < pow2 k"
  by (simp add: pow2_def)

lemma floor_log2_bounds:
  assumes "0 < q"
  shows "pow2 (floor_log2 q) \<le> q" and "q < pow2 (floor_log2 q + 1)"
proof -
  show "pow2 (floor_log2 q) \<le> q"
  proof (cases "1 \<le> q")
    case True
    then have n: "0 < \<lfloor>q\<rfloor>" by simp
    let ?b = "bit_length \<lfloor>q\<rfloor>"
    have "(2::int) ^ nat (?b - 1) \<le> \<lfloor>q\<rfloor>" using n by (rule bit_length_lower)
    then have "of_int ((2::int) ^ nat (?b - 1)) \<le> (of_int \<lfloor>q\<rfloor> :: rat)"
      by (simp only: of_int_le_iff)
    also have "\<dots> \<le> q" by (rule of_int_floor_le)
    finally have "(2::rat) ^ nat (?b - 1) \<le> q" by simp
    moreover have "0 \<le> ?b - 1" using bit_length_pos [OF n] by simp
    ultimately show ?thesis using True by (simp add: floor_log2_def pow2_def)
  next
    case False
    let ?c = "\<lceil>1 / q\<rceil>"
    let ?j = "bit_length (?c - 1)"
    from False assms have p: "1 < 1 / q" by simp
    then have "1 < ?c" using assms by (simp add: less_ceiling_iff)
    then have c: "0 \<le> ?c - 1" by linarith
    have "?c - 1 < 2 ^ nat ?j" using c by (rule bit_length_upper)
    then have "?c \<le> 2 ^ nat ?j" by simp
    then have "(of_int ?c :: rat) \<le> of_int (2 ^ nat ?j)" by (simp only: of_int_le_iff)
    moreover have "1 / q \<le> of_int ?c" by (rule le_of_int_ceiling)
    ultimately have "1 / q \<le> of_int (2 ^ nat ?j)" by (rule order_trans [rotated])
    then have "1 / q \<le> 2 ^ nat ?j" by simp
    with assms have "1 / 2 ^ nat ?j \<le> q"
      by (simp add: field_simps)
    moreover have "0 \<le> ?j" by (rule bit_length_nonneg)
    ultimately show ?thesis using False
      by (auto simp: floor_log2_def pow2_def)
  qed
  show "q < pow2 (floor_log2 q + 1)"
  proof (cases "1 \<le> q")
    case True
    then have n: "0 \<le> \<lfloor>q\<rfloor>" by simp
    let ?b = "bit_length \<lfloor>q\<rfloor>"
    have "\<lfloor>q\<rfloor> < 2 ^ nat ?b" using n by (rule bit_length_upper)
    then have "\<lfloor>q\<rfloor> + 1 \<le> 2 ^ nat ?b" by simp
    then have "(of_int (\<lfloor>q\<rfloor> + 1) :: rat) \<le> of_int (2 ^ nat ?b)" by (simp only: of_int_le_iff)
    moreover have "q < of_int (\<lfloor>q\<rfloor> + 1)" by linarith
    ultimately have "q < of_int (2 ^ nat ?b)" by (rule less_le_trans [rotated])
    then have "q < 2 ^ nat ?b" by simp
    moreover have "0 \<le> ?b" by (rule bit_length_nonneg)
    ultimately show ?thesis using True by (simp add: floor_log2_def pow2_def)
  next
    case False
    let ?c = "\<lceil>1 / q\<rceil>"
    let ?j = "bit_length (?c - 1)"
    from False assms have p: "1 < 1 / q" by simp
    then have "1 < ?c" using assms by (simp add: less_ceiling_iff)
    then have c: "0 < ?c - 1" by linarith
    have j: "0 < ?j" using c by (rule bit_length_pos)
    have "(2::int) ^ nat (?j - 1) \<le> ?c - 1" using c by (rule bit_length_lower)
    then have "(of_int ((2::int) ^ nat (?j - 1)) :: rat) \<le> of_int (?c - 1)"
      by (simp only: of_int_le_iff)
    moreover have "(of_int (?c - 1) :: rat) < 1 / q"
      using ceiling_correct [of "1 / q"] by linarith
    ultimately have "(of_int ((2::int) ^ nat (?j - 1)) :: rat) < 1 / q"
      by (rule le_less_trans)
    then have "(2::rat) ^ nat (?j - 1) < 1 / q" by simp
    with assms have "q < 1 / 2 ^ nat (?j - 1)"
      by (simp add: field_simps)
    then show ?thesis using False j
      by (auto simp: floor_log2_def pow2_def)
  qed
qed

lemma round_half_even_of_int: "round_half_even (of_int z) = z"
  by (simp add: round_half_even_def)

lemma nearest_of_int:
  assumes "0 \<le> k" and "k < 2 ^ 53"
  shows "nearest (of_int k) = of_int k"
proof (cases "k = 0")
  case True
  then show ?thesis by (simp add: nearest_def)
next
  case False
  with assms have k: "0 < k" by simp
  let ?b = "bit_length k"
  have b: "0 < ?b" using k by (rule bit_length_pos)
  have b53: "?b \<le> 53" using bit_length_le [OF assms(2)] by simp
  have fl: "floor_log2 (of_int k) = ?b - 1"
    using k by (simp add: floor_log2_def)
  define j where "j = nat (53 - ?b)"
  have e: "max (floor_log2 (of_int k) - 52) (- 1074) = - int j"
    using b b53 by (simp add: fl j_def)
  have p: "pow2 (- int j) = 1 / 2 ^ j"
    by (simp add: pow2_def)
  have "of_int k / pow2 (- int j) = (of_int (k * 2 ^ j) :: rat)"
    by (simp add: p)
  then have "round_half_even (of_int k / pow2 (- int j)) = k * 2 ^ j"
    by (simp only: round_half_even_of_int)
  then show ?thesis
    using k by (simp add: nearest_def e Let_def p)
qed

lemma round_double_of_int:
  assumes "\<bar>k\<bar> < 2 ^ 53"
  shows "round_double (of_int k) = Finite (of_int k)"
proof -
  have n: "nearest \<bar>of_int k\<bar> = of_int \<bar>k\<bar>"
    using nearest_of_int [of "\<bar>k\<bar>"] assms by simp
  have "(of_int \<bar>k\<bar> :: rat) < of_int (2 ^ 53)"
    using assms by (simp only: of_int_less_iff)
  also have "(of_int (2 ^ 53) :: rat) \<le> 2 ^ 1024" by simp
  finally have small: "\<not> (2 ^ 1024 \<le> (of_int \<bar>k\<bar> :: rat))" by simp
  show ?thesis
    unfolding round_double_def n Let_def using small
    by (auto simp: signed_zero_def)
qed

lemma round_double_whole:
  "round_double 0 = Finite 0"
  "round_double 1 = Finite 1"
  "numeral w < (2::int) ^ 53 \<Longrightarrow> round_double (numeral w) = Finite (numeral w)"
  "numeral w < (2::int) ^ 53 \<Longrightarrow> round_double (- numeral w) = Finite (- numeral w)"
  "round_double (- 1) = Finite (- 1)"
  using round_double_of_int [of 0] round_double_of_int [of 1]
    round_double_of_int [of "numeral w"] round_double_of_int [of "- numeral w"]
    round_double_of_int [of "- 1"]
  by simp_all


lemma pow2_add: "pow2 (a + b) = pow2 a * pow2 b"
  by (simp add: pow2_powi power_int_add)

lemma pow2_mono: "a \<le> b \<Longrightarrow> pow2 a \<le> pow2 b"
  by (simp add: pow2_powi power_int_increasing)

lemma pow2_less_cancel: "pow2 a < pow2 b \<Longrightarrow> a < b"
  using pow2_mono [of b a] by (cases "a < b") auto

lemma pow2_numeral: "pow2 (numeral w) = 2 ^ numeral w"
  by (simp add: pow2_def)

lemma floor_log2_unique:
  assumes "pow2 k \<le> q" and "q < pow2 (k + 1)"
  shows "floor_log2 q = k"
proof -
  have q: "0 < q" using assms(1) pow2_pos [of k] by simp
  note b = floor_log2_bounds [OF q]
  have "pow2 (floor_log2 q) < pow2 (k + 1)" using b(1) assms(2) by simp
  then have "floor_log2 q < k + 1" by (rule pow2_less_cancel)
  moreover have "pow2 k < pow2 (floor_log2 q + 1)" using b(2) assms(1) by simp
  then have "k < floor_log2 q + 1" by (rule pow2_less_cancel)
  ultimately show ?thesis by simp
qed

lemma round_half_even_unique:
  assumes "\<bar>x - of_int m\<bar> < 1 / 2 \<or> (\<bar>x - of_int m\<bar> = 1 / 2 \<and> even m)"
  shows "round_half_even x = m"
proof -
  define f where "f = \<lfloor>x\<rfloor>"
  define d where "d = x - of_int f"
  have fx: "of_int f \<le> x" "x < of_int f + 1"
    unfolding f_def by linarith+
  have rhe: "round_half_even x =
      (if d < 1 / 2 then f else if 1 / 2 < d then f + 1 else if even f then f else f + 1)"
    by (simp only: round_half_even_def Let_def f_def d_def)
  from assms consider "\<bar>x - of_int m\<bar> < 1 / 2" | "\<bar>x - of_int m\<bar> = 1 / 2" "even m"
    by blast
  then show ?thesis
  proof cases
    case 1
    have "(of_int f :: rat) < of_int m + 1" using fx 1 by linarith
    then have "(of_int f :: rat) < of_int (m + 1)" by simp
    then have a: "f < m + 1" by (simp only: of_int_less_iff)
    have "(of_int m :: rat) - 1 < of_int f + 1" using fx 1 by linarith
    then have "(of_int (m - 1) :: rat) < of_int (f + 1)" by simp
    then have b: "m - 1 < f + 1" by (simp only: of_int_less_iff)
    from a b have "f = m \<or> f = m - 1" by linarith
    then show ?thesis
    proof
      assume fm: "f = m"
      then have "d < 1 / 2" using 1 unfolding d_def by linarith
      then show ?thesis by (simp add: rhe fm)
    next
      assume fm: "f = m - 1"
      then have "of_int f = (of_int m :: rat) - 1" by simp
      then have "1 / 2 < d" using 1 unfolding d_def by linarith
      then show ?thesis by (simp add: rhe fm)
    qed
  next
    case 2
    then have "x = of_int m + 1 / 2 \<or> x = of_int m - 1 / 2" by linarith
    then show ?thesis
    proof
      assume x: "x = of_int m + 1 / 2"
      have "of_int m \<le> x" "x < of_int m + 1" unfolding x by linarith+
      then have fm: "f = m" unfolding f_def by (rule floor_unique)
      have "d = 1 / 2" unfolding d_def fm x by linarith
      with 2 show ?thesis by (simp add: rhe fm)
    next
      assume x: "x = of_int m - 1 / 2"
      have "of_int (m - 1) \<le> x" "x < of_int (m - 1) + 1" unfolding x by simp_all
      then have fm: "f = m - 1" unfolding f_def by (rule floor_unique)
      have "of_int f = (of_int m :: rat) - 1" unfolding fm by simp
      then have "d = 1 / 2" unfolding d_def x by linarith
      with 2 show ?thesis by (simp add: rhe fm)
    qed
  qed
qed

lemma round_half_even_ge_floor: "\<lfloor>x\<rfloor> \<le> round_half_even x"
  by (simp add: round_half_even_def Let_def)

text \<open>
  A positive \<open>q\<close> rounds to \<open>m * 2^e\<close> when \<open>q / 2^e\<close> lies in the binade of 53-bit
  significands and within a half of \<open>m\<close>, a tie going to the even \<open>m\<close>.
\<close>

lemma round_double_normal:
  assumes "2 ^ 52 \<le> q / pow2 e" and "q / pow2 e < 2 ^ 53"
    and "- 1074 \<le> e" and "e \<le> 971"
    and "\<bar>q / pow2 e - of_int m\<bar> < 1 / 2 \<or> (\<bar>q / pow2 e - of_int m\<bar> = 1 / 2 \<and> even m)"
    and "m < 2 ^ 53 \<or> e < 971"
  shows "round_double q = Finite (of_int m * pow2 e)"
proof -
  define x where "x = q / pow2 e"
  have pe: "0 < pow2 e" by (rule pow2_pos)
  have qx: "q = x * pow2 e" using pe by (simp add: x_def)
  have x1: "2 ^ 52 \<le> x" and x2: "x < 2 ^ 53"
    and x5: "\<bar>x - of_int m\<bar> < 1 / 2 \<or> (\<bar>x - of_int m\<bar> = 1 / 2 \<and> even m)"
    using assms(1,2,5) by (simp_all only: x_def)
  have xpos: "0 < x" using x1 by (rule less_le_trans [rotated]) simp
  have q: "0 < q" unfolding qx using xpos pe by (rule mult_pos_pos)
  have "pow2 (52 + e) = 2 ^ 52 * pow2 e"
    by (simp only: pow2_add pow2_numeral)
  moreover have "2 ^ 52 * pow2 e \<le> x * pow2 e"
    using x1 pe by (simp only: mult_le_cancel_right_pos)
  ultimately have lo: "pow2 (e + 52) \<le> q" by (simp only: qx add.commute)
  have "pow2 (53 + e) = 2 ^ 53 * pow2 e"
    by (simp only: pow2_add pow2_numeral)
  moreover have "x * pow2 e < 2 ^ 53 * pow2 e"
    using x2 pe by (simp only: mult_less_cancel_right_pos)
  ultimately have "q < pow2 (53 + e)" by (simp only: qx)
  then have hi: "q < pow2 (e + 52 + 1)" by (simp add: add.commute)
  from lo hi have fl: "floor_log2 q = e + 52" by (rule floor_log2_unique)
  have m: "round_half_even x = m"
    using x5 by (rule round_half_even_unique)
  have n: "nearest q = of_int m * pow2 e"
    using q assms(3) m by (simp add: nearest_def fl x_def)
  have mpos: "0 < m"
  proof -
    have "(1::rat) \<le> 2 ^ 52" by simp
    with x1 x5 have "(0::rat) < of_int m" by linarith
    then show ?thesis by simp
  qed
  have mle: "m \<le> 2 ^ 53"
  proof -
    have "(of_int m :: rat) < 2 ^ 53 + 1" using x2 x5 by linarith
    then have "(of_int m :: rat) < of_int (2 ^ 53 + 1)" by simp
    then have "m < 2 ^ 53 + 1" by (simp only: of_int_less_iff)
    then show ?thesis by simp
  qed
  have p1024: "(2::rat) ^ 1024 = 2 ^ 53 * pow2 971"
    by (simp add: pow2_def)
  have small: "of_int m * pow2 e < 2 ^ 1024"
  proof (cases "m < 2 ^ 53")
    case True
    then have "(of_int m :: rat) < of_int (2 ^ 53)" by (simp only: of_int_less_iff)
    then have "(of_int m :: rat) < 2 ^ 53" by simp
    then have "of_int m * pow2 e < 2 ^ 53 * pow2 e"
      using pe by (simp only: mult_less_cancel_right_pos)
    also have "\<dots> \<le> 2 ^ 53 * pow2 971"
      using pow2_mono [OF assms(4)] by (simp only: mult_le_cancel_left_pos zero_less_power zero_less_numeral)
    finally show ?thesis by (simp only: p1024)
  next
    case False
    with assms(6) have e: "e \<le> 970" by simp
    from mle have "(of_int m :: rat) \<le> of_int (2 ^ 53)" by (simp only: of_int_le_iff)
    then have "(of_int m :: rat) \<le> 2 ^ 53" by simp
    then have "of_int m * pow2 e \<le> 2 ^ 53 * pow2 e"
      using pe by (simp only: mult_le_cancel_right_pos)
    also have "\<dots> \<le> 2 ^ 53 * pow2 970"
      using pow2_mono [OF e] by (simp only: mult_le_cancel_left_pos zero_less_power zero_less_numeral)
    also have "\<dots> < 2 ^ 53 * pow2 971"
      by (simp add: pow2_def)
    finally show ?thesis by (simp only: p1024)
  qed
  have nz: "of_int m * pow2 e \<noteq> 0" using mpos pe by simp
  show ?thesis
    using q small nz by (simp add: round_double_def n Let_def)
qed

lemma round_double_overflow:
  assumes "2 ^ 1024 \<le> q"
  shows "round_double q = PosInfinity"
proof -
  have q: "0 < q" using assms by (rule less_le_trans [rotated]) simp
  note b = floor_log2_bounds [OF q]
  define k where "k = floor_log2 q"
  have top: "(2::rat) ^ 1024 = pow2 1024" by (simp only: pow2_numeral)
  have "pow2 1024 < pow2 (k + 1)"
    using b(2) assms unfolding k_def top by (rule le_less_trans [rotated])
  then have "1024 < k + 1" by (rule pow2_less_cancel)
  then have k: "1024 \<le> k" by simp
  define e where "e = k - 52"
  have e: "max (floor_log2 q - 52) (- 1074) = e" using k by (simp add: e_def k_def)
  define x where "x = q / pow2 e"
  have pe: "0 < pow2 e" by (rule pow2_pos)
  have ke: "pow2 k = 2 ^ 52 * pow2 e"
    using pow2_add [of 52 e] by (simp add: e_def pow2_numeral)
  have "2 ^ 52 * pow2 e \<le> q" using b(1) by (simp only: k_def [symmetric] ke)
  then have "2 ^ 52 \<le> x" unfolding x_def using pe by (simp only: pos_le_divide_eq)
  then have "(of_int (2 ^ 52) :: rat) \<le> x" by simp
  then have "2 ^ 52 \<le> \<lfloor>x\<rfloor>" by (simp only: le_floor_iff)
  then have "2 ^ 52 \<le> round_half_even x"
    using round_half_even_ge_floor by (rule order_trans)
  then have "(of_int (2 ^ 52) :: rat) \<le> of_int (round_half_even x)"
    by (simp only: of_int_le_iff)
  then have "(2::rat) ^ 52 \<le> of_int (round_half_even x)" by simp
  then have "2 ^ 52 * pow2 e \<le> of_int (round_half_even x) * pow2 e"
    using pe by (simp only: mult_le_cancel_right_pos)
  moreover have "pow2 1024 \<le> pow2 k" using k by (rule pow2_mono)
  ultimately have "pow2 1024 \<le> of_int (round_half_even x) * pow2 e"
    by (simp only: ke)
  moreover have "nearest q = of_int (round_half_even x) * pow2 e"
    using q by (simp add: nearest_def e x_def)
  ultimately have "2 ^ 1024 \<le> nearest q" by (simp only: top)
  then show ?thesis
    using q by (simp add: round_double_def Let_def signed_inf_def)
qed

lemma round_double_underflow:
  assumes "0 < q" and "q < 1 / 2 ^ 1075"
  shows "round_double q = Finite 0"
proof -
  note b = floor_log2_bounds [OF assms(1)]
  have low: "1 / (2::rat) ^ 1075 = pow2 (- 1075)" by (simp add: pow2_def)
  have "pow2 (floor_log2 q) < pow2 (- 1075)"
    using b(1) assms(2) unfolding low by (rule le_less_trans)
  then have "floor_log2 q < - 1075" by (rule pow2_less_cancel)
  then have e: "max (floor_log2 q - 52) (- 1074) = - 1074" by simp
  define x where "x = q / pow2 (- 1074)"
  have pe: "0 < pow2 (- 1074)" by (rule pow2_pos)
  have "pow2 (- 1075) = 1 / 2 * pow2 (- 1074)" by (simp add: pow2_def)
  with assms(2) have "q < 1 / 2 * pow2 (- 1074)" by (simp only: low)
  then have x1: "x < 1 / 2" unfolding x_def using pe by (simp only: pos_divide_less_eq)
  have x0: "0 < x" unfolding x_def using assms(1) pe by (rule divide_pos_pos)
  have "of_int 0 \<le> x" "x < of_int 0 + 1" using x0 x1 by simp_all
  then have f: "\<lfloor>x\<rfloor> = 0" by (rule floor_unique)
  have "x - of_int \<lfloor>x\<rfloor> < 1 / 2" using x1 by (simp only: f of_int_0 diff_zero)
  then have "round_half_even x = 0"
    by (simp only: round_half_even_def Let_def if_True f)
  then have "nearest q = 0" using assms(1) by (simp add: nearest_def e x_def)
  then show ?thesis
    using assms(1) by (simp add: round_double_def Let_def signed_zero_def)
qed

lemma round_double_minus:
  assumes "round_double q = Finite r" and "0 < q" and "r \<noteq> 0"
  shows "round_double (- q) = Finite (- r)"
  using assms
  by (auto simp: round_double_def Let_def signed_inf_def signed_zero_def split: if_splits)

lemma round_half_even_bounds: "\<lfloor>x\<rfloor> \<le> round_half_even x" "round_half_even x \<le> \<lfloor>x\<rfloor> + 1"
  by (simp_all add: round_half_even_def Let_def)

lemma round_double_subnormal:
  assumes "0 < m" and "m < 2 ^ 52"
  shows "round_double (of_int m * pow2 (- 1074)) = Finite (of_int m * pow2 (- 1074))"
proof -
  define q where "q = of_int m * pow2 (- 1074)"
  have pe: "0 < pow2 (- 1074)" by (rule pow2_pos)
  have mpos: "(0::rat) < of_int m" using assms(1) by simp
  have q: "0 < q" unfolding q_def using mpos pe by (rule mult_pos_pos)
  have "(of_int m :: rat) < of_int (2 ^ 52)" using assms(2) by (simp only: of_int_less_iff)
  then have m52: "(of_int m :: rat) < 2 ^ 52" by simp
  then have "q < 2 ^ 52 * pow2 (- 1074)"
    unfolding q_def using pe by (simp only: mult_less_cancel_right_pos)
  also have "2 ^ 52 * pow2 (- 1074) = pow2 (52 + (- 1074))"
    by (simp only: pow2_add pow2_numeral)
  finally have "q < pow2 (- 1022)" by simp
  with floor_log2_bounds(1) [OF q] have "pow2 (floor_log2 q) < pow2 (- 1022)"
    by (rule le_less_trans)
  then have "floor_log2 q < - 1022" by (rule pow2_less_cancel)
  then have e: "max (floor_log2 q - 52) (- 1074) = - 1074" by simp
  have x: "q / pow2 (- 1074) = of_int m" unfolding q_def using pe by simp
  have "nearest q = of_int m * pow2 (- 1074)"
    using q by (simp add: nearest_def e x round_half_even_of_int)
  then have n: "nearest q = q" by (simp only: q_def)
  have "pow2 (- 1022) \<le> pow2 1024" by (rule pow2_mono) simp
  with \<open>q < pow2 (- 1022)\<close> have "q < pow2 1024" by (rule less_le_trans)
  then have "q < 2 ^ 1024" by (simp only: pow2_numeral)
  then have "round_double q = Finite q"
    using q by (simp add: round_double_def n Let_def)
  then show ?thesis by (simp only: q_def)
qed

text \<open>What rounding returns is a double: it rounds to itself.\<close>

lemma round_double_is_double:
  assumes "round_double q = Finite r"
  shows "is_double r"
proof (cases "q = 0")
  case True
  with assms have "r = 0" by (simp add: round_double_whole)
  then show ?thesis by (simp add: is_double_def round_double_whole)
next
  case False
  define a where "a = \<bar>q\<bar>"
  have a: "0 < a" using False by (simp add: a_def)
  define e where "e = max (floor_log2 a - 52) (- 1074)"
  define x where "x = a / pow2 e"
  define m where "m = round_half_even x"
  have pe: "0 < pow2 e" by (rule pow2_pos)
  have n: "nearest a = of_int m * pow2 e"
    using a by (simp add: nearest_def e_def x_def m_def Let_def)
  show ?thesis
  proof (cases "of_int m * pow2 e = 0")
    case True
    with assms have "r = 0"
      by (auto simp: round_double_def Let_def signed_inf_def signed_zero_def n
          simp flip: a_def split: if_splits)
    then show ?thesis by (simp add: is_double_def round_double_whole)
  next
    case nz: False
  from assms nz have small: "of_int m * pow2 e < 2 ^ 1024"
    and r: "r = (if q < 0 then - (of_int m * pow2 e) else of_int m * pow2 e)"
    by (auto simp: round_double_def Let_def signed_inf_def signed_zero_def n
        simp flip: a_def split: if_splits)
  have xpos: "0 < x" unfolding x_def using a pe by (rule divide_pos_pos)
  have "0 \<le> \<lfloor>x\<rfloor>" using xpos by simp
  with round_half_even_bounds(1) [of x] have "0 \<le> m" unfolding m_def by linarith
  with nz have mpos: "0 < m" by (cases "m = 0") simp_all
  have e1074: "- 1074 \<le> e" by (simp add: e_def)
  have xlt: "x < 2 ^ 53"
  proof -
    have "a < pow2 (floor_log2 a + 1)" using a by (rule floor_log2_bounds)
    also have "floor_log2 a + 1 \<le> 53 + e" by (simp add: e_def)
    then have "pow2 (floor_log2 a + 1) \<le> pow2 (53 + e)" by (rule pow2_mono)
    also have "pow2 (53 + e) = 2 ^ 53 * pow2 e" by (simp only: pow2_add pow2_numeral)
    finally show ?thesis unfolding x_def using pe by (simp only: pos_divide_less_eq)
  qed
  then have "\<lfloor>x\<rfloor> < 2 ^ 53" by (simp add: floor_less_iff)
  with round_half_even_bounds(2) [of x] have mle: "m \<le> 2 ^ 53" unfolding m_def by linarith
  have pos: "round_double (of_int m * pow2 e) = Finite (of_int m * pow2 e)"
  proof (cases "m < 2 ^ 52")
    case True
    have "e = - 1074"
    proof (rule ccontr)
      assume "e \<noteq> - 1074"
      then have e: "e = floor_log2 a - 52" by (simp add: e_def split: if_splits)
      have "pow2 (52 + e) \<le> a" using floor_log2_bounds(1) [OF a] by (simp add: e)
      then have "2 ^ 52 * pow2 e \<le> a" by (simp only: pow2_add pow2_numeral)
      then have "2 ^ 52 \<le> x" unfolding x_def using pe by (simp only: pos_le_divide_eq)
      then have "(of_int (2 ^ 52) :: rat) \<le> x" by simp
      then have "2 ^ 52 \<le> \<lfloor>x\<rfloor>" by (simp only: le_floor_iff)
      with round_half_even_bounds(1) [of x] True show False unfolding m_def by linarith
    qed
    with round_double_subnormal [OF mpos True] show ?thesis by simp
  next
    case False
    show ?thesis
    proof (cases "m = 2 ^ 53")
      case True
      have eq: "of_int m * pow2 e = of_int (2 ^ 52) * pow2 (e + 1)"
        unfolding True by (simp add: pow2_add pow2_def [of 1])
      have "e < 971"
      proof (rule ccontr)
        assume "\<not> e < 971"
        then have "pow2 971 \<le> pow2 e" by (intro pow2_mono) simp
        then have "2 ^ 53 * pow2 971 \<le> 2 ^ 53 * pow2 e"
          by (simp only: mult_le_cancel_left_pos zero_less_power zero_less_numeral)
        moreover have "(2::rat) ^ 1024 = 2 ^ 53 * pow2 971" by (simp add: pow2_def)
        ultimately have "2 ^ 1024 \<le> of_int m * pow2 e" unfolding True by simp
        with small show False by simp
      qed
      then have "e + 1 \<le> 971" by simp
      moreover have "- 1074 \<le> e + 1" using e1074 by simp
      ultimately have "round_double (of_int (2 ^ 52) * pow2 (e + 1)) =
          Finite (of_int (2 ^ 52) * pow2 (e + 1))"
        using round_double_normal [of "of_int (2 ^ 52) * pow2 (e + 1)" "e + 1" "2 ^ 52"]
          pow2_pos [of "e + 1"]
        by simp
      then show ?thesis by (simp only: eq)
    next
      case m53: False
      with mle have m53: "m < 2 ^ 53" by simp
      from False have "2 ^ 52 \<le> m" by simp
      then have "(of_int (2 ^ 52) :: rat) \<le> of_int m" by (simp only: of_int_le_iff)
      then have lo: "(2::rat) ^ 52 \<le> of_int m" by simp
      have "(of_int m :: rat) < of_int (2 ^ 53)" using m53 by (simp only: of_int_less_iff)
      then have hi: "(of_int m :: rat) < 2 ^ 53" by simp
      have "e \<le> 971"
      proof (rule ccontr)
        assume "\<not> e \<le> 971"
        then have "pow2 972 \<le> pow2 e" by (intro pow2_mono) simp
        then have "2 ^ 52 * pow2 972 \<le> 2 ^ 52 * pow2 e"
          by (simp only: mult_le_cancel_left_pos zero_less_power zero_less_numeral)
        also have "\<dots> \<le> of_int m * pow2 e"
          using lo pe by (simp only: mult_le_cancel_right_pos)
        finally have "2 ^ 52 * pow2 972 \<le> of_int m * pow2 e" .
        moreover have "(2::rat) ^ 1024 = 2 ^ 52 * pow2 972" by (simp add: pow2_def)
        ultimately have "2 ^ 1024 \<le> of_int m * pow2 e" by simp
        with small show False by simp
      qed
      with round_double_normal [of "of_int m * pow2 e" e m] lo hi pe e1074 m53
      show ?thesis by simp
    qed
  qed
  have prod_pos: "0 < of_int m * pow2 e"
    using mpos pe by simp
  show ?thesis
  proof (cases "q < 0")
    case True
    with r have "r = - (of_int m * pow2 e)" by simp
    moreover have "round_double (- (of_int m * pow2 e)) = Finite (- (of_int m * pow2 e))"
      using pos prod_pos nz by (rule round_double_minus)
    ultimately show ?thesis by (simp add: is_double_def)
  next
    case False
    with r pos show ?thesis by (simp add: is_double_def)
  qed
  qed
qed


lemma is_double_iff: "is_double r \<longleftrightarrow> nearest \<bar>r\<bar> = \<bar>r\<bar> \<and> \<bar>r\<bar> < 2 ^ 1024"
  by (auto simp: is_double_def round_double_def Let_def signed_inf_def signed_zero_def
        nearest_def)

lemma is_double_minus: "is_double (- r) = is_double r"
  by (simp add: is_double_iff)

lemma is_double_0: "is_double 0"
  by (simp add: is_double_def round_double_whole)

lemma is_number_round_double: "is_number (round_double q)"
  by (cases "round_double q") (simp_all add: round_double_is_double)

lemma is_number_signed: "is_number (signed_inf neg)" "is_number (signed_zero neg)"
  by (simp_all add: signed_inf_def signed_zero_def is_double_0)

lemma is_number_neg: "is_number a \<Longrightarrow> is_number (num_neg a)"
  by (cases a) (auto simp: is_double_minus is_double_0)

text \<open>The operators take numbers of the language to numbers of the language.\<close>

lemma operators_return_numbers:
  assumes "is_number a" and "is_number b"
  shows "is_number (num_add a b)" and "is_number (num_sub a b)"
    and "is_number (num_mul a b)" and "is_number (num_div a b)"
proof -
  have add: "is_number (num_add a b)" if "is_number a" and "is_number b" for a b
    using that
    by (cases a; cases b) (simp_all add: num_add_def is_number_round_double)
  from assms show "is_number (num_add a b)" by (rule add)
  from assms show "is_number (num_sub a b)"
    unfolding num_sub_def by (intro add is_number_neg)
  show "is_number (num_mul a b)"
    by (cases a; cases b)
       (simp_all add: num_mul_def is_number_round_double is_number_signed)
  show "is_number (num_div a b)"
    by (cases a; cases b)
       (simp_all add: num_div_def is_number_round_double is_number_signed)
qed

text \<open>
  Rounding, overflow, underflow and the signs of zero: \<open>2^53 + 1\<close> is \<open>2^53\<close>,
  \<open>1 / 3\<close> is \<open>0.3333333333333333\<close>, \<open>0.1 + 0.2\<close> is \<open>0.30000000000000004\<close>,
  \<open>2^600 * 2^600\<close> is \<^verbatim>\<open>Infinity\<close>, \<open>2^-600 * 2^-600\<close> is 0 and \<open>2 / -0\<close> is
  \<^verbatim>\<open>-Infinity\<close>.
\<close>

lemma double_arithmetic:
  "num_add (Finite (2 ^ 53)) (Finite 1) = Finite (2 ^ 53)"
  "num_div (Finite 1) (Finite 3) = Finite (6004799503160661 / 2 ^ 54)"
  "num_add (Finite (3602879701896397 / 2 ^ 55)) (Finite (3602879701896397 / 2 ^ 54)) =
     Finite (5404319552844596 / 2 ^ 54)"
  "num_mul (Finite (2 ^ 600)) (Finite (2 ^ 600)) = PosInfinity"
  "num_mul (Finite (1 / 2 ^ 600)) (Finite (1 / 2 ^ 600)) = Finite 0"
  "num_mul (Finite (- 1 / 2 ^ 600)) (Finite (1 / 2 ^ 600)) = NegZero"
  "num_div (Finite 2) NegZero = NegInfinity"
  "num_sub (Finite 5) (Finite 5) = Finite 0"
  "num_mul (Finite 0) (Finite (- 1)) = NegZero"
  "num_sub (num_add (num_add (Finite (2 ^ 53)) (Finite 1)) (Finite 1))
           (num_add (Finite (2 ^ 53)) (Finite 2)) = Finite (- 2)"
proof -
  have tie: "round_double (2 ^ 53 + 1) = Finite (2 ^ 53)"
    using round_double_normal [of "2 ^ 53 + 1" 1 "2 ^ 52"] by (simp add: pow2_def)
  have third: "round_double (1 / 3) = Finite (6004799503160661 / 2 ^ 54)"
    using round_double_normal [of "1 / 3" "- 54" 6004799503160661] by (simp add: pow2_def)
  have tenths: "round_double (3602879701896397 / 2 ^ 55 + 3602879701896397 / 2 ^ 54) =
      Finite (5404319552844596 / 2 ^ 54)"
    using round_double_normal
      [of "3602879701896397 / 2 ^ 55 + 3602879701896397 / 2 ^ 54" "- 54" 5404319552844596]
    by (simp add: pow2_def)
  have next_even: "round_double (2 ^ 53 + 2) = Finite (2 ^ 53 + 2)"
    using round_double_normal [of "2 ^ 53 + 2" 1 "2 ^ 52 + 1"] by (simp add: pow2_def)
  have over: "round_double (2 ^ 600 * 2 ^ 600) = PosInfinity"
    by (rule round_double_overflow) simp
  have under: "round_double (1 / 2 ^ 600 * (1 / 2 ^ 600)) = Finite 0"
    by (rule round_double_underflow) simp_all
  have under_neg: "round_double (- 1 / 2 ^ 600 * (1 / 2 ^ 600)) = NegZero"
    using under by (simp add: round_double_def Let_def signed_zero_def signed_inf_def
        split: if_splits)
  show "num_add (Finite (2 ^ 53)) (Finite 1) = Finite (2 ^ 53)"
    using tie by (simp add: num_add_def)
  show "num_div (Finite 1) (Finite 3) = Finite (6004799503160661 / 2 ^ 54)"
    using third by (simp add: num_div_def)
  show "num_add (Finite (3602879701896397 / 2 ^ 55)) (Finite (3602879701896397 / 2 ^ 54)) =
     Finite (5404319552844596 / 2 ^ 54)"
    using tenths by (simp add: num_add_def)
  show "num_mul (Finite (2 ^ 600)) (Finite (2 ^ 600)) = PosInfinity"
    using over by (simp add: num_mul_def)
  show "num_mul (Finite (1 / 2 ^ 600)) (Finite (1 / 2 ^ 600)) = Finite 0"
    using under by (simp add: num_mul_def)
  show "num_mul (Finite (- 1 / 2 ^ 600)) (Finite (1 / 2 ^ 600)) = NegZero"
    using under_neg by (simp add: num_mul_def)
  show "num_div (Finite 2) NegZero = NegInfinity"
    by (simp add: num_div_def signed_inf_def)
  show "num_sub (Finite 5) (Finite 5) = Finite 0"
    by (simp add: num_sub_def num_add_def round_double_whole)
  show "num_mul (Finite 0) (Finite (- 1)) = NegZero"
    by (simp add: num_mul_def signed_zero_def)
  show "num_sub (num_add (num_add (Finite (2 ^ 53)) (Finite 1)) (Finite 1))
           (num_add (Finite (2 ^ 53)) (Finite 2)) = Finite (- 2)"
    using tie next_even by (simp add: num_sub_def num_add_def round_double_whole)
qed

section \<open>Unfolding the constructors\<close>

lemmas js_defs = js_return_def js_throw_def js_bind_def

lemma call_result_has_result:
  "call_result v s = (Inr a, s') \<Longrightarrow> has_result v"
proof (cases v)
  case (Prim p)
  assume "call_result v s = (Inr a, s')"
  with Prim show ?thesis by (simp add: js_throw_def)
next
  case (Object r t)
  assume "call_result v s = (Inr a, s')"
  with Object show ?thesis by (cases r) (simp_all add: js_throw_def)
qed

lemma Value_unfold:
  "Value v s =
     (if isNumber v
      then (Inr (Object (Method (js_return (the_number v))) (Method (printValue v))), s)
      else (case ToString v s of
              (Inl e, s') \<Rightarrow> (Inl e, s')
            | (Inr txt, s') \<Rightarrow> (Inl (InvalidLiteral txt), s')))"
  by (simp add: Value_def makeValue_def validateValue_def js_defs split: prod.splits sum.splits)

lemma Add_unfold:
  "Add l r s =
     (if has_result l \<and> has_result r
      then (Inr (Object (Method (binary_result num_add l r))
                        (Method (printExpression l r ''+''))), s)
      else (Inl (MissingOperand ''+''), s))"
  by (simp add: Add_def makeAdd_def validateExpression_def js_defs)

lemma Subtract_unfold:
  "Subtract l r s =
     (if has_result l \<and> has_result r
      then (Inr (Object (Method (binary_result num_sub l r))
                        (Method (printExpression l r ''-''))), s)
      else (Inl (MissingOperand ''-''), s))"
  by (simp add: Subtract_def makeSubtract_def validateExpression_def js_defs)

lemma Multiply_unfold:
  "Multiply l r s =
     (if has_result l \<and> has_result r
      then (Inr (Object (Method (binary_result num_mul l r))
                        (Method (printExpression l r ''x''))), s)
      else (Inl (MissingOperand ''x''), s))"
  by (simp add: Multiply_def makeMultiply_def validateExpression_def js_defs)

lemma Divide_unfold:
  "Divide l r s =
     (if has_result l \<and> has_result r
      then (case call_result r s of
              (Inl e, s1) \<Rightarrow> (Inl e, s1)
            | (Inr b, s1) \<Rightarrow>
                if is_zero b
                then (case call_toString r s1 of
                        (Inl e, s2) \<Rightarrow> (Inl e, s2)
                      | (Inr txt, s2) \<Rightarrow> (Inl (ZeroDivisor txt), s2))
                else (Inr (Object (Method (binary_result num_div l r))
                                  (Method (printExpression l r division_sign))), s1))
      else (Inl (MissingOperand division_sign), s))"
  by (simp add: Divide_def makeDivide_def validateDivide_def validateExpression_def js_defs
           split: prod.splits sum.splits)

lemma binary_result_returns:
  "call_result l s1 = (Inr a, s2) \<Longrightarrow> call_result r s2 = (Inr b, s3) \<Longrightarrow>
   binary_result f l r s1 = (Inr (f a b), s3)"
  by (simp add: binary_result_def js_defs)

lemma printExpression_returns:
  "call_toString l s1 = (Inr t, s2) \<Longrightarrow> call_toString r s2 = (Inr u, s3) \<Longrightarrow>
   printExpression l r operation s1 = (Inr (''('' @ t @ '' '' @ operation @ '' '' @ u @ '')''), s3)"
  by (simp add: printExpression_def js_defs)

text \<open>What a constructor returns, when it returns.\<close>

lemma Value_node:
  assumes "Value v s = (Inr n, s')"
  shows "\<exists>x. n = Object (Method (js_return x)) (Method (js_return (Number_toString x)))"
proof -
  from assms have num: "isNumber v"
    by (auto simp: Value_unfold split: if_splits prod.splits sum.splits)
  then obtain x where v: "v = Prim (JNumber x)"
    by (cases v rule: isNumber.cases) simp_all
  have "printValue (Prim (JNumber x)) = js_return (Number_toString x)"
    by (simp add: printValue_def)
  with assms num v
  have "n = Object (Method (js_return x)) (Method (js_return (Number_toString x)))"
    by (auto simp: Value_unfold)
  then show ?thesis ..
qed

lemma binary_node:
  assumes "Add l r s = (Inr n, s') \<or> Subtract l r s = (Inr n, s') \<or>
           Multiply l r s = (Inr n, s') \<or> Divide l r s = (Inr n, s')"
  shows "\<exists>f operation.
           n = Object (Method (binary_result f l r)) (Method (printExpression l r operation))"
  using assms
  by (auto simp: Add_unfold Subtract_unfold Multiply_unfold Divide_unfold
           split: if_splits prod.splits sum.splits)

lemma returns_binary_result:
  assumes "returns (call_result l)" and "returns (call_result r)"
  shows "returns (binary_result f l r)"
  unfolding returns_def
proof
  fix s
  from assms(1) obtain a s1 where l: "call_result l s = (Inr a, s1)"
    unfolding returns_def by blast
  from assms(2) obtain b s2 where r: "call_result r s1 = (Inr b, s2)"
    unfolding returns_def by blast
  from l r have "binary_result f l r s = (Inr (f a b), s2)"
    by (rule binary_result_returns)
  then show "\<exists>x s'. binary_result f l r s = (Inr x, s')" by blast
qed

lemma returns_printExpression:
  assumes "returns (call_toString l)" and "returns (call_toString r)"
  shows "returns (printExpression l r operation)"
  unfolding returns_def
proof
  fix s
  from assms(1) obtain t s1 where l: "call_toString l s = (Inr t, s1)"
    unfolding returns_def by blast
  from assms(2) obtain u s2 where r: "call_toString r s1 = (Inr u, s2)"
    unfolding returns_def by blast
  from l r have "printExpression l r operation s =
      (Inr (''('' @ t @ '' '' @ operation @ '' '' @ u @ '')''), s2)"
    by (rule printExpression_returns)
  then show "\<exists>x s'. printExpression l r operation s = (Inr x, s')" by blast
qed

lemma pure_call_return: "pure_call (js_return x)"
  unfolding pure_call_def js_return_def by blast

lemma returns_return: "returns (js_return x)"
  unfolding returns_def js_return_def by blast

lemma pure_call_bind:
  assumes "pure_call m" and "\<And>x. pure_call (k x)"
  shows "pure_call (js_bind m k)"
proof -
  from assms(1) obtain out where m: "\<And>s. m s = (out, s)"
    unfolding pure_call_def by blast
  show ?thesis
  proof (cases out)
    case (Inl e)
    with m have "js_bind m k s = (Inl e, s)" for s
      by (simp add: js_bind_def)
    then show ?thesis unfolding pure_call_def by blast
  next
    case (Inr x)
    from assms(2) [of x] obtain out' where k: "\<And>s. k x s = (out', s)"
      unfolding pure_call_def by blast
    from m Inr k have "js_bind m k s = (out', s)" for s
      by (simp add: js_bind_def)
    then show ?thesis unfolding pure_call_def by blast
  qed
qed

lemma pure_call_binary_result:
  assumes "pure_call (call_result l)" and "pure_call (call_result r)"
  shows "pure_call (binary_result f l r)"
  unfolding binary_result_def
  by (intro pure_call_bind assms pure_call_return)

lemma pure_call_printExpression:
  assumes "pure_call (call_toString l)" and "pure_call (call_toString r)"
  shows "pure_call (printExpression l r operation)"
  unfolding printExpression_def
  by (intro pure_call_bind assms pure_call_return)

section \<open>Evaluation of binary nodes\<close>

text \<open>
  C1.  Let \<^verbatim>\<open>l.result()\<close> return \<open>a\<close> and \<^verbatim>\<open>r.result()\<close>, called next, return \<open>b\<close>.
  Then \<^verbatim>\<open>Add(l, r)\<close> constructs a node whose \<^verbatim>\<open>result()\<close> returns \<open>a + b\<close>, passing
  through the same states; \<^verbatim>\<open>Subtract\<close> gives \<open>a - b\<close> and \<^verbatim>\<open>Multiply\<close> gives
  \<open>a * b\<close>.  \<^verbatim>\<open>Divide(l, r)\<close> constructs a node whose \<^verbatim>\<open>result()\<close> returns \<open>a / b\<close>
  whenever \<^verbatim>\<open>r.result()\<close> is not a zero when the node is constructed.  The operators
  are those of the language on doubles: on finite operands, the exact sum, difference,
  product or quotient rounded to the nearest double (a product or quotient that is
  exactly zero, and a division by a zero, taking their sign or value from the signs of
  the operands).  For operands whose \<^verbatim>\<open>result()\<close> is pure all the states coincide and
  the law reads \<^verbatim>\<open>Add(l, r).result() === l.result() + r.result()\<close>.
\<close>

theorem binary_nodes_evaluate:
  assumes "call_result l s1 = (Inr a, s2)" and "call_result r s2 = (Inr b, s3)"
  shows "(\<exists>n. Add l r s = (Inr n, s) \<and> call_result n s1 = (Inr (num_add a b), s3)) \<and>
         (\<exists>n. Subtract l r s = (Inr n, s) \<and> call_result n s1 = (Inr (num_sub a b), s3)) \<and>
         (\<exists>n. Multiply l r s = (Inr n, s) \<and> call_result n s1 = (Inr (num_mul a b), s3)) \<and>
         (\<forall>b0 s0. call_result r s = (Inr b0, s0) \<and> \<not> is_zero b0 \<longrightarrow>
            (\<exists>n. Divide l r s = (Inr n, s0) \<and> call_result n s1 = (Inr (num_div a b), s3))) \<and>
         num_add (Finite x) (Finite y) = round_double (x + y) \<and>
         num_sub (Finite x) (Finite y) = round_double (x - y) \<and>
         (x * y \<noteq> 0 \<longrightarrow> num_mul (Finite x) (Finite y) = round_double (x * y)) \<and>
         (x \<noteq> 0 \<and> y \<noteq> 0 \<longrightarrow> num_div (Finite x) (Finite y) = round_double (x / y))"
proof -
  have ops: "num_add (Finite x) (Finite y) = round_double (x + y)"
    "num_sub (Finite x) (Finite y) = round_double (x - y)"
    "x * y \<noteq> 0 \<longrightarrow> num_mul (Finite x) (Finite y) = round_double (x * y)"
    "x \<noteq> 0 \<and> y \<noteq> 0 \<longrightarrow> num_div (Finite x) (Finite y) = round_double (x / y)"
    by (simp_all add: num_add_def num_sub_def num_mul_def num_div_def)
  have l: "has_result l" and r: "has_result r"
    using assms by (auto dest: call_result_has_result)
  have res: "binary_result f l r s1 = (Inr (f a b), s3)" for f
    using assms by (rule binary_result_returns)
  have "\<exists>n. Add l r s = (Inr n, s) \<and> call_result n s1 = (Inr (num_add a b), s3)"
    using l r res by (simp add: Add_unfold)
  moreover
  have "\<exists>n. Subtract l r s = (Inr n, s) \<and> call_result n s1 = (Inr (num_sub a b), s3)"
    using l r res by (simp add: Subtract_unfold)
  moreover
  have "\<exists>n. Multiply l r s = (Inr n, s) \<and> call_result n s1 = (Inr (num_mul a b), s3)"
    using l r res by (simp add: Multiply_unfold)
  moreover
  have "\<exists>n. Divide l r s = (Inr n, s0) \<and> call_result n s1 = (Inr (num_div a b), s3)"
    if "call_result r s = (Inr b0, s0)" and "\<not> is_zero b0" for b0 s0
    using l r res that by (simp add: Divide_unfold)
  ultimately show ?thesis using ops by blast
qed

theorem binary_nodes_evaluate_witness:
  "call_result two 0 = (Inr (Finite 2), 0) \<and> call_result three 0 = (Inr (Finite 3), 0) \<and>
   \<not> is_zero (Finite 3) \<and>
   (\<exists>n. Add two three 0 = (Inr n, 0) \<and> call_result n 0 = (Inr (Finite 5), 0)) \<and>
   (\<exists>n. Subtract two three 0 = (Inr n, 0) \<and> call_result n 0 = (Inr (Finite (- 1)), 0)) \<and>
   (\<exists>n. Multiply two three 0 = (Inr n, 0) \<and> call_result n 0 = (Inr (Finite 6), 0)) \<and>
   (\<exists>n. Divide two three 0 = (Inr n, 0) \<and>
        call_result n 0 = (Inr (Finite (6004799503160661 / 2 ^ 53)), 0)) \<and>
   (2::rat) * 3 \<noteq> 0 \<and> num_mul (Finite 2) (Finite 3) = Finite 6 \<and>
   num_div (Finite 2) (Finite 3) = Finite (6004799503160661 / 2 ^ 53)"
proof -
  have l: "call_result two 0 = (Inr (Finite 2), 0)"
    by (simp add: two_def js_return_def)
  have r: "call_result three 0 = (Inr (Finite 3), 0)"
    by (simp add: three_def js_return_def)
  have nz: "\<not> is_zero (Finite 3)" by (simp add: is_zero_def)
  have rd: "round_double (2 / 3) = Finite (6004799503160661 / 2 ^ 53)"
    using round_double_normal [of "2 / 3" "- 53" 6004799503160661] by (simp add: pow2_def)
  from binary_nodes_evaluate [OF l r, of 0 2 3] r nz l rd show ?thesis
    by (auto simp: round_double_whole)
qed

section \<open>Literals\<close>

text \<open>
  C5.  For every finite number \<open>x\<close>, \<^verbatim>\<open>Value(x)\<close> constructs a node, without touching
  the state, whose \<^verbatim>\<open>result()\<close> returns \<open>x\<close> itself and whose \<^verbatim>\<open>toString()\<close> returns
  \<^verbatim>\<open>String(x)\<close>, in every state and leaving it as it is.
\<close>

theorem literal_evaluates_and_renders:
  assumes "isNumber (Prim (JNumber x))"
  shows "\<exists>n. Value (Prim (JNumber x)) s = (Inr n, s) \<and>
             call_result n s' = (Inr x, s') \<and>
             call_toString n s' = ToString (Prim (JNumber x)) s' \<and>
             ToString (Prim (JNumber x)) s' = (Inr (Number_toString x), s')"
  using assms by (simp add: Value_unfold printValue_def js_return_def)

theorem literal_evaluates_and_renders_witness:
  "isNumber (num 7 :: nat jsval) \<and>
   (\<exists>n. Value (num 7) (0::nat) = (Inr n, 0) \<and>
        call_result n 0 = (Inr (Finite 7), 0) \<and>
        call_toString n 0 = (Inr ''7'', 0))"
proof -
  have f: "isNumber (num 7 :: nat jsval)" by simp
  have t: "Number_toString (Finite 7) = ''7''"
    by (simp add: Number_toString_def decimal_def digits.simps)
  from literal_evaluates_and_renders [OF f, of 0 0] f t show ?thesis
    by (auto simp: js_return_def)
qed

section \<open>Rendering of binary nodes\<close>

text \<open>
  C6.  Let \<^verbatim>\<open>l.toString()\<close> return \<open>t\<close> and \<^verbatim>\<open>r.toString()\<close>, called next, return \<open>u\<close>.
  Then the \<^verbatim>\<open>toString()\<close> of every node returned by \<^verbatim>\<open>Add(l, r)\<close> returns
  \<open>(t + u)\<close>, of \<^verbatim>\<open>Subtract(l, r)\<close> \<open>(t - u)\<close>, of \<^verbatim>\<open>Multiply(l, r)\<close> \<open>(t x u)\<close> with a
  lower-case x, and of \<^verbatim>\<open>Divide(l, r)\<close> \<open>t\<close> and \<open>u\<close> around the division sign U+00F7
  (bytes C3 B7), each with one space on both sides of the operator and one pair of
  parentheses around the whole.
\<close>

theorem binary_nodes_render:
  assumes "call_toString l s1 = (Inr t, s2)" and "call_toString r s2 = (Inr u, s3)"
  shows "(\<forall>n s'. Add l r s = (Inr n, s') \<longrightarrow>
            call_toString n s1 = (Inr (''('' @ t @ '' + '' @ u @ '')''), s3)) \<and>
         (\<forall>n s'. Subtract l r s = (Inr n, s') \<longrightarrow>
            call_toString n s1 = (Inr (''('' @ t @ '' - '' @ u @ '')''), s3)) \<and>
         (\<forall>n s'. Multiply l r s = (Inr n, s') \<longrightarrow>
            call_toString n s1 = (Inr (''('' @ t @ '' x '' @ u @ '')''), s3)) \<and>
         (\<forall>n s'. Divide l r s = (Inr n, s') \<longrightarrow>
            call_toString n s1 =
              (Inr (''('' @ t @ '' '' @ [CHR 0xC3, CHR 0xB7] @ '' '' @ u @ '')''), s3))"
proof -
  have pr: "printExpression l r operation s1 =
              (Inr (''('' @ t @ '' '' @ operation @ '' '' @ u @ '')''), s3)" for operation
    using assms by (rule printExpression_returns)
  have "call_toString n s1 = (Inr (''('' @ t @ '' + '' @ u @ '')''), s3)"
    if "Add l r s = (Inr n, s')" for n s'
    using that pr [of "''+''"] by (auto simp: Add_unfold split: if_splits)
  moreover
  have "call_toString n s1 = (Inr (''('' @ t @ '' - '' @ u @ '')''), s3)"
    if "Subtract l r s = (Inr n, s')" for n s'
    using that pr [of "''-''"] by (auto simp: Subtract_unfold split: if_splits)
  moreover
  have "call_toString n s1 = (Inr (''('' @ t @ '' x '' @ u @ '')''), s3)"
    if "Multiply l r s = (Inr n, s')" for n s'
    using that pr [of "''x''"] by (auto simp: Multiply_unfold split: if_splits)
  moreover
  have "call_toString n s1 =
          (Inr (''('' @ t @ '' '' @ [CHR 0xC3, CHR 0xB7] @ '' '' @ u @ '')''), s3)"
    if "Divide l r s = (Inr n, s')" for n s'
    using that pr [of division_sign]
    by (auto simp: Divide_unfold division_sign_def split: if_splits prod.splits sum.splits)
  ultimately show ?thesis by blast
qed

theorem binary_nodes_render_witness:
  "call_toString one 0 = (Inr ''1'', 0) \<and> call_toString two 0 = (Inr ''2'', 0) \<and>
   (\<exists>n. Add one two 0 = (Inr n, 0) \<and> call_toString n 0 = (Inr ''(1 + 2)'', 0)) \<and>
   (\<exists>n. Subtract one two 0 = (Inr n, 0) \<and> call_toString n 0 = (Inr ''(1 - 2)'', 0)) \<and>
   (\<exists>n. Multiply one two 0 = (Inr n, 0) \<and> call_toString n 0 = (Inr ''(1 x 2)'', 0)) \<and>
   (\<exists>n. Divide one two 0 = (Inr n, 0) \<and>
        call_toString n 0 = (Inr (''(1 '' @ [CHR 0xC3, CHR 0xB7] @ '' 2)''), 0))"
proof -
  have l: "call_toString one 0 = (Inr ''1'', 0)"
    by (simp add: one_def js_return_def)
  have r: "call_toString two 0 = (Inr ''2'', 0)"
    by (simp add: two_def js_return_def)
  have a: "\<exists>n. Add one two 0 = (Inr n, 0)"
    by (simp add: Add_unfold one_def two_def)
  have s: "\<exists>n. Subtract one two 0 = (Inr n, 0)"
    by (simp add: Subtract_unfold one_def two_def)
  have m: "\<exists>n. Multiply one two 0 = (Inr n, 0)"
    by (simp add: Multiply_unfold one_def two_def)
  have d: "\<exists>n. Divide one two 0 = (Inr n, 0)"
    by (simp add: Divide_unfold one_def two_def js_return_def is_zero_def)
  from binary_nodes_render [OF l r, of 0] a s m d l r show ?thesis
    by (simp del: ex_simps) blast
qed

section \<open>The tree of index.js\<close>

text \<open>
  C8.  The tree of index.js constructs, in any state and leaving it as it is; its
  \<^verbatim>\<open>toString()\<close> returns \<open>((7 + ((3 - 2) x 5)) \<div> 6)\<close>, the division sign being the bytes
  C3 B7, and its \<^verbatim>\<open>result()\<close> returns 2.
\<close>

theorem tree_renders_and_evaluates:
  "\<exists>n. tree s = (Inr n, s) \<and>
       call_toString n s =
         (Inr (''((7 + ((3 - 2) x 5)) '' @ [CHR 0xC3, CHR 0xB7] @ '' 6)''), s) \<and>
       call_result n s = (Inr (Finite 2), s)"
  by (simp add: tree_def Value_def Add_def Subtract_def Multiply_def Divide_def
        makeValue_def makeAdd_def makeSubtract_def makeMultiply_def makeDivide_def
        validateValue_def validateExpression_def validateDivide_def
        printValue_def printExpression_def binary_result_def division_sign_def
        js_defs num_add_def num_sub_def num_mul_def num_div_def is_zero_def
        round_double_whole Number_toString_def decimal_def digits.simps)

section \<open>The divisor check\<close>

text \<open>
  C2, as stated, fails: \<^verbatim>\<open>{ result: () => 0, toString() { throw "boom" } }\<close> passes
  the operand validation and evaluates to exactly 0, yet \<^verbatim>\<open>Divide\<close> does not fail with
  the zero-divisor error: the message is never built, because rendering the operand
  throws first.
\<close>

theorem zero_divisor_without_text:
  "has_result one \<and> has_result zero_unprintable \<and>
   call_result zero_unprintable 0 = (Inr (Finite 0), 0) \<and>
   Divide one zero_unprintable 0 = (Inl (Thrown ''boom''), 0)"
  by (simp add: Divide_unfold one_def zero_unprintable_def js_defs is_zero_def)

text \<open>
  C2, amended.  Let \<open>l\<close> and \<open>r\<close> pass the operand validation and let \<^verbatim>\<open>r.result()\<close>
  return \<open>b\<close>.  If \<open>b\<close> is not a zero, \<^verbatim>\<open>Divide(l, r)\<close> constructs a node.  If \<open>b\<close> is a
  zero (\<^verbatim>\<open>b === 0\<close>) and \<^verbatim>\<open>r.toString()\<close> returns \<open>t\<close>, construction fails with the
  zero-divisor error, whose message quotes \<open>t\<close>, the rendered operand; if \<open>b\<close> is a zero
  and \<^verbatim>\<open>r.toString()\<close> raises, construction fails with what it raised.
\<close>

theorem divide_rejects_zero_divisor:
  assumes "has_result l" and "has_result r" and "call_result r s = (Inr b, s1)"
  shows "(\<not> is_zero b \<longrightarrow> (\<exists>n. Divide l r s = (Inr n, s1))) \<and>
         (is_zero b \<longrightarrow>
            (\<forall>t s2. call_toString r s1 = (Inr t, s2) \<longrightarrow>
               Divide l r s = (Inl (ZeroDivisor t), s2) \<and>
               ZeroDivisor t =
                 Error (''The right-hand side operand \"'' @ t @
                        ''\" for Divide must be non-zero!'')) \<and>
            (\<forall>e s2. call_toString r s1 = (Inl e, s2) \<longrightarrow> Divide l r s = (Inl e, s2))) \<and>
         is_zero (Finite 0) \<and> is_zero NegZero \<and>
         (\<forall>x. x \<noteq> 0 \<longrightarrow> \<not> is_zero (Finite x)) \<and>
         \<not> is_zero NaN \<and> \<not> is_zero PosInfinity \<and> \<not> is_zero NegInfinity"
  using assms by (simp add: Divide_unfold ZeroDivisor_def is_zero_def)

theorem divide_rejects_zero_divisor_witness:
  "has_result one \<and> has_result two \<and> has_result zero_sum \<and> has_result zero_unprintable \<and>
   call_result two 0 = (Inr (Finite 2), 0) \<and> \<not> is_zero (Finite 2) \<and>
   (\<exists>n. Divide one two 0 = (Inr n, 0)) \<and>
   call_result zero_sum 0 = (Inr (Finite 0), 0) \<and> is_zero (Finite 0) \<and>
   call_toString zero_sum 0 = (Inr ''((7 - 8) + 1)'', 0) \<and>
   Divide one zero_sum 0 = (Inl (ZeroDivisor ''((7 - 8) + 1)''), 0) \<and>
   ZeroDivisor ''((7 - 8) + 1)'' =
     Error ''The right-hand side operand \"((7 - 8) + 1)\" for Divide must be non-zero!'' \<and>
   call_result zero_unprintable 0 = (Inr (Finite 0), 0) \<and>
   call_toString zero_unprintable 0 = (Inl (Thrown ''boom''), 0) \<and>
   Divide one zero_unprintable 0 = (Inl (Thrown ''boom''), 0)"
proof -
  have l: "has_result one" by (simp add: one_def)
  have r2: "has_result two" by (simp add: two_def)
  have c2: "call_result two 0 = (Inr (Finite 2), 0)" by (simp add: two_def js_return_def)
  have r0: "has_result zero_sum"
    by (simp add: zero_sum_def js_bind_def Value_unfold Add_unfold Subtract_unfold)
  have c0: "call_result zero_sum 0 = (Inr (Finite 0), 0)"
    by (simp add: zero_sum_def Value_unfold Add_unfold Subtract_unfold
          binary_result_def num_sub_def num_add_def round_double_whole js_defs)
  have t0: "call_toString zero_sum 0 = (Inr ''((7 - 8) + 1)'', 0)"
    by (simp add: zero_sum_def Value_unfold Add_unfold Subtract_unfold
          printExpression_def printValue_def js_defs Number_toString_def decimal_def
          digits.simps)
  have ru: "has_result zero_unprintable" by (simp add: zero_unprintable_def)
  have cu: "call_result zero_unprintable 0 = (Inr (Finite 0), 0)"
    by (simp add: zero_unprintable_def js_return_def)
  have tu: "call_toString zero_unprintable 0 = (Inl (Thrown ''boom''), 0)"
    by (simp add: zero_unprintable_def js_throw_def)
  have z: "\<not> is_zero (Finite 2)" "is_zero (Finite 0)" by (simp_all add: is_zero_def)
  from divide_rejects_zero_divisor [OF l r2 c2] divide_rejects_zero_divisor [OF l r0 c0]
    divide_rejects_zero_divisor [OF l ru cu] l r2 c2 r0 c0 t0 ru cu tu z
  show ?thesis by simp
qed

section \<open>The operand check\<close>

text \<open>
  C3, as stated, fails: \<^verbatim>\<open>{ result: () => 1, toString: null }\<close> cannot be rendered and
  \<^verbatim>\<open>{ result: 5 }\<close> cannot be evaluated, yet \<^verbatim>\<open>Add\<close> and \<^verbatim>\<open>Multiply\<close> construct a
  node from them.
\<close>

theorem operand_without_capability_accepted:
  "call_toString unprintable 0 = (Inl TypeError, 0) \<and>
   \<not> isl (fst (Add unprintable two 0)) \<and>
   call_result uncallable 0 = (Inl TypeError, 0) \<and>
   \<not> isl (fst (Multiply two uncallable 0))"
  by (simp add: Add_unfold Multiply_unfold unprintable_def uncallable_def two_def js_defs
        is_zero_def)

text \<open>
  C3, amended.  Every binary constructor fails with the missing-operand error, naming
  its operation, when \<^verbatim>\<open>left?.result\<close> or \<^verbatim>\<open>right?.result\<close> is falsy, and does so on
  construction, without touching the state.  That probe is the whole check: when both
  are truthy, \<^verbatim>\<open>Add\<close>, \<^verbatim>\<open>Subtract\<close> and \<^verbatim>\<open>Multiply\<close> construct a node, whether or not
  \<^verbatim>\<open>result\<close> and \<^verbatim>\<open>toString\<close> can be called.
\<close>

theorem operands_are_probed_for_result:
  "(\<not> (has_result l \<and> has_result r) \<longrightarrow>
      Add l r s = (Inl (MissingOperand ''+''), s) \<and>
      Subtract l r s = (Inl (MissingOperand ''-''), s) \<and>
      Multiply l r s = (Inl (MissingOperand ''x''), s) \<and>
      Divide l r s = (Inl (MissingOperand [CHR 0xC3, CHR 0xB7]), s)) \<and>
   (has_result l \<and> has_result r \<longrightarrow>
      (\<exists>n. Add l r s = (Inr n, s)) \<and>
      (\<exists>n. Subtract l r s = (Inr n, s)) \<and>
      (\<exists>n. Multiply l r s = (Inr n, s)))"
proof (cases "has_result l \<and> has_result r")
  case True
  then show ?thesis
    by (simp add: Add_unfold Subtract_unfold Multiply_unfold)
next
  case False
  then have "Add l r s = (Inl (MissingOperand ''+''), s)"
    and "Subtract l r s = (Inl (MissingOperand ''-''), s)"
    and "Multiply l r s = (Inl (MissingOperand ''x''), s)"
    and "Divide l r s = (Inl (MissingOperand [CHR 0xC3, CHR 0xB7]), s)"
    by (auto simp: Add_unfold Subtract_unfold Multiply_unfold Divide_unfold
          division_sign_def)
  with False show ?thesis by simp
qed

theorem operands_are_probed_for_result_witness:
  "\<not> (has_result (Prim (JString ''abc'')) \<and> has_result two) \<and>
   Add (Prim (JString ''abc'')) two 0 = (Inl (MissingOperand ''+''), 0) \<and>
   Subtract (Prim (JString ''abc'')) two 0 = (Inl (MissingOperand ''-''), 0) \<and>
   Multiply (Prim (JString ''abc'')) two 0 = (Inl (MissingOperand ''x''), 0) \<and>
   Divide (Prim (JString ''abc'')) two 0 = (Inl (MissingOperand [CHR 0xC3, CHR 0xB7]), 0) \<and>
   has_result unprintable \<and> has_result uncallable \<and>
   (\<exists>n. Add unprintable uncallable 0 = (Inr n, 0)) \<and>
   (\<exists>n. Subtract unprintable uncallable 0 = (Inr n, 0)) \<and>
   (\<exists>n. Multiply unprintable uncallable 0 = (Inr n, 0))"
proof -
  have a: "\<not> (has_result (Prim (JString ''abc'')) \<and> has_result two)" by simp
  have b: "has_result unprintable \<and> has_result uncallable"
    by (simp add: unprintable_def uncallable_def is_zero_def)
  from operands_are_probed_for_result [of "Prim (JString ''abc'')" two 0]
    operands_are_probed_for_result [of unprintable uncallable 0] a b
  show ?thesis by simp
qed

section \<open>The literal check\<close>

text \<open>
  C7, as stated, fails: \<^verbatim>\<open>{ toString() { throw "boom" } }\<close> is not a number, yet
  \<^verbatim>\<open>Value\<close> does not fail with the invalid-literal error: interpolating the value into
  the message throws first.  So does interpolating a symbol.
\<close>

theorem invalid_literal_without_text:
  "\<not> isNumber unconvertible \<and> Value unconvertible 0 = (Inl (Thrown ''boom''), 0) \<and>
   \<not> isNumber (Prim (JSymbol ''x'') :: nat jsval) \<and>
   Value (Prim (JSymbol ''x'')) (0::nat) = (Inl TypeError, 0)"
  by (simp add: Value_unfold unconvertible_def js_defs)

text \<open>
  C7, amended.  \<^verbatim>\<open>Value(v)\<close> constructs a node exactly when \<open>v\<close> is a finite number.
  When \<open>v\<close> is not and its interpolation \<^verbatim>\<open>`${v}`\<close> into the message returns \<open>txt\<close>,
  construction fails with the invalid-literal error, whose message quotes \<open>txt\<close>; when
  the interpolation raises, that error is raised.  The interpolation returns for every
  primitive that is not a symbol, so that the first case covers \<^verbatim>\<open>undefined\<close>,
  \<^verbatim>\<open>null\<close>, booleans, strings, bigints, \<^verbatim>\<open>NaN\<close> and both infinities; it raises a
  \<^verbatim>\<open>TypeError\<close> for a symbol.
\<close>

theorem literal_validation:
  "(isNumber v \<longrightarrow> (\<exists>n. Value v s = (Inr n, s))) \<and>
   (\<not> isNumber v \<longrightarrow>
      (\<forall>txt s'. ToString v s = (Inr txt, s') \<longrightarrow>
         Value v s = (Inl (InvalidLiteral txt), s') \<and>
         InvalidLiteral txt =
           Error (''The value \"'' @ txt @ ''\" is not a numerical value!'')) \<and>
      (\<forall>e s'. ToString v s = (Inl e, s') \<longrightarrow> Value v s = (Inl e, s'))) \<and>
   ((\<forall>d. p \<noteq> JSymbol d) \<longrightarrow> (\<exists>txt. ToString (Prim p) s = (Inr txt, s))) \<and>
   ToString (Prim (JSymbol d)) s = (Inl TypeError, s) \<and>
   Value (Prim (JSymbol d)) s = (Inl TypeError, s)"
proof -
  have "\<exists>txt. ToString (Prim p) s = (Inr txt, s)" if "\<forall>d. p \<noteq> JSymbol d"
    using that by (cases p) (simp_all add: js_return_def)
  then show ?thesis by (simp add: Value_unfold InvalidLiteral_def js_throw_def)
qed

theorem literal_validation_witness:
  "isNumber (num 1 :: nat jsval) \<and> (\<exists>n. Value (num 1) (0::nat) = (Inr n, 0)) \<and>
   \<not> isNumber (Prim (JString ''abc'') :: nat jsval) \<and>
   ToString (Prim (JString ''abc'')) (0::nat) = (Inr ''abc'', 0) \<and>
   Value (Prim (JString ''abc'')) (0::nat) = (Inl (InvalidLiteral ''abc''), 0) \<and>
   InvalidLiteral ''abc'' = Error ''The value \"abc\" is not a numerical value!'' \<and>
   \<not> isNumber (Prim (JNumber NaN) :: nat jsval) \<and>
   Value (Prim (JNumber NaN)) (0::nat) = (Inl (InvalidLiteral ''NaN''), 0) \<and>
   \<not> isNumber (Prim (JNumber PosInfinity) :: nat jsval) \<and>
   Value (Prim (JNumber PosInfinity)) (0::nat) = (Inl (InvalidLiteral ''Infinity''), 0) \<and>
   \<not> isNumber (Prim (JBigInt 10) :: nat jsval) \<and>
   (\<forall>d. JBigInt 10 \<noteq> JSymbol d) \<and>
   Value (Prim (JBigInt 10)) (0::nat) = (Inl (InvalidLiteral ''10''), 0) \<and>
   \<not> isNumber unconvertible \<and>
   ToString unconvertible 0 = (Inl (Thrown ''boom''), 0) \<and>
   Value unconvertible 0 = (Inl (Thrown ''boom''), 0) \<and>
   Value (Prim (JSymbol ''x'')) (0::nat) = (Inl TypeError, 0)"
proof -
  have 1: "isNumber (num 1 :: nat jsval)" by simp
  have 2: "ToString (Prim (JString ''abc'')) (0::nat) = (Inr ''abc'', 0)"
    by (simp add: js_return_def)
  have 3: "ToString (Prim (JNumber NaN)) (0::nat) = (Inr ''NaN'', 0)"
    by (simp add: js_return_def Number_toString_def)
  have 4: "ToString (Prim (JNumber PosInfinity)) (0::nat) = (Inr ''Infinity'', 0)"
    by (simp add: js_return_def Number_toString_def)
  have 5: "ToString unconvertible 0 = (Inl (Thrown ''boom''), 0)"
    by (simp add: unconvertible_def js_throw_def)
  have 6: "\<not> isNumber unconvertible" by (simp add: unconvertible_def)
  have 7: "ToString (Prim (JBigInt 10)) (0::nat) = (Inr ''10'', 0)"
    by (simp add: js_return_def decimal_def digits.simps)
  from literal_validation [of "num 1" "0::nat"]
    literal_validation [of "Prim (JString ''abc'')" "0::nat"]
    literal_validation [of "Prim (JNumber NaN)" "0::nat"]
    literal_validation [of "Prim (JNumber PosInfinity)" "0::nat"]
    literal_validation [of "Prim (JBigInt 10)" "0::nat" "JBigInt 10"]
    literal_validation [of unconvertible 0 _ "''x''"]
    1 2 3 4 5 6 7
  show ?thesis by simp
qed

section \<open>What construction calls\<close>

text \<open>
  C10.  The functions of the operands are arbitrary: each may change the state and may
  throw.  Whatever they are, \<^verbatim>\<open>Add\<close>, \<^verbatim>\<open>Subtract\<close> and \<^verbatim>\<open>Multiply\<close> leave the state as
  it is, and construct a node as soon as both \<^verbatim>\<open>result\<close> properties are truthy: they
  call nothing.  \<^verbatim>\<open>Divide\<close> then leaves the state that \<^verbatim>\<open>right.result()\<close> leaves,
  followed by \<^verbatim>\<open>right.toString()\<close> exactly when the result was a zero, and constructs a
  node when the result is not a zero: \<^verbatim>\<open>left.result()\<close> and \<^verbatim>\<open>left.toString()\<close> play
  no part, so that a node is constructed also when evaluating its left operand would
  raise.
\<close>

theorem construction_calls:
  "snd (Add l r s) = s \<and> snd (Subtract l r s) = s \<and> snd (Multiply l r s) = s \<and>
   (has_result l \<and> has_result r \<longrightarrow>
      (\<exists>n. Add l r s = (Inr n, s)) \<and>
      (\<exists>n. Subtract l r s = (Inr n, s)) \<and>
      (\<exists>n. Multiply l r s = (Inr n, s)) \<and>
      snd (Divide l r s) =
        (case call_result r s of
           (Inl e, s1) \<Rightarrow> s1
         | (Inr b, s1) \<Rightarrow> if is_zero b then snd (call_toString r s1) else s1) \<and>
      (\<forall>b s1. call_result r s = (Inr b, s1) \<and> \<not> is_zero b \<longrightarrow>
         (\<exists>n. Divide l r s = (Inr n, s1))))"
  by (simp add: Add_unfold Subtract_unfold Multiply_unfold Divide_unfold
        split: prod.splits sum.splits)

theorem construction_calls_witness:
  "has_result failing \<and> has_result logging \<and>
   call_result failing 0 = (Inl (Thrown ''boom''), 0) \<and>
   call_result logging 0 = (Inr (Finite 1), 1) \<and> \<not> is_zero (Finite 1) \<and>
   call_toString logging 1 = (Inr ''1'', 2) \<and>
   snd (Add logging logging 0) = 0 \<and>
   snd (Subtract logging logging 0) = 0 \<and>
   snd (Multiply logging logging 0) = 0 \<and>
   (\<exists>n. Add failing logging 0 = (Inr n, 0)) \<and>
   (\<exists>n. Subtract failing logging 0 = (Inr n, 0)) \<and>
   (\<exists>n. Multiply failing logging 0 = (Inr n, 0)) \<and>
   snd (Divide failing logging 0) = 1 \<and>
   (\<exists>n. Divide failing logging 0 = (Inr n, 1))"
proof -
  have f: "has_result failing" by (simp add: failing_def)
  have g: "has_result logging" by (simp add: logging_def)
  have c: "call_result failing 0 = (Inl (Thrown ''boom''), 0)"
    by (simp add: failing_def js_throw_def)
  have d: "call_result logging 0 = (Inr (Finite 1), 1)"
    by (simp add: logging_def logged_result_def)
  have e: "call_toString logging 1 = (Inr ''1'', 2)"
    by (simp add: logging_def logged_toString_def numeral_2_eq_2)
  have z: "\<not> is_zero (Finite 1)" by (simp add: is_zero_def)
  from construction_calls [of logging logging 0] construction_calls [of failing logging 0]
    f g c d e z
  show ?thesis by simp
qed

section \<open>Errors are raised on construction\<close>

lemma example_nodes:
  "Value (num 1) 0 = (Inr literal_one, 0)"
  "Value (num 2) 0 = (Inr literal_two, 0)"
  "Add two three 0 = (Inr five, 0)"
  "Divide literal_one literal_two 0 = (Inr half, 0)"
  "Multiply five half 0 = (Inr five_halves, 0)"
  by (simp_all add: literal_one_def literal_two_def five_def half_def five_halves_def
        two_def three_def Value_unfold Add_unfold Multiply_unfold Divide_unfold js_defs
        is_zero_def)

lemma example_leaves:
  "call_result two = js_return (Finite 2)" "call_toString two = js_return ''2''"
  "call_result three = js_return (Finite 3)" "call_toString three = js_return ''3''"
  "call_result literal_two = js_return (Finite 2)"
  by (simp_all add: two_def three_def literal_two_def Value_unfold)

text \<open>
  C4, as stated, fails: \<^verbatim>\<open>{ result: 5 }\<close> and \<^verbatim>\<open>{ result: () => 1, toString: null }\<close>
  pass the validation of \<^verbatim>\<open>Add\<close>, which returns a node, and both \<^verbatim>\<open>result()\<close> and
  \<^verbatim>\<open>toString()\<close> of that node raise.
\<close>

theorem validated_node_raises:
  "has_result uncallable \<and> has_result unprintable \<and>
   Add uncallable unprintable 0 = (Inr broken_sum, 0) \<and>
   call_result broken_sum 0 = (Inl TypeError, 0) \<and>
   call_toString broken_sum 0 = (Inl TypeError, 0)"
  by (simp add: broken_sum_def Add_unfold uncallable_def unprintable_def
        binary_result_def printExpression_def js_defs is_zero_def)

text \<open>
  C4, amended.  The \<^verbatim>\<open>result()\<close> and \<^verbatim>\<open>toString()\<close> of every node that \<^verbatim>\<open>Value\<close>
  returns return, in every state, without raising.  The \<^verbatim>\<open>result()\<close> of every node
  that a binary constructor returns does so whenever the \<^verbatim>\<open>result()\<close> of both operands
  always returns a number, and its \<^verbatim>\<open>toString()\<close> whenever the \<^verbatim>\<open>toString()\<close> of both
  operands always returns a string: hence those of every tree that the constructors
  build from literals and from any other operands of which this holds, the
  repository's or not.  When the right operand of a node that \<^verbatim>\<open>Divide\<close> returns
  evaluates to the same number \<open>b\<close> in every state, \<open>b\<close> is not a zero: its evaluation
  divides by what the check on construction saw.
\<close>

theorem nodes_of_returning_operands_return:
  "(Value v s = (Inr n, s') \<longrightarrow> returns (call_result n) \<and> returns (call_toString n)) \<and>
   (Add l r s = (Inr n, s') \<or> Subtract l r s = (Inr n, s') \<or>
    Multiply l r s = (Inr n, s') \<or> Divide l r s = (Inr n, s') \<longrightarrow>
      (returns (call_result l) \<and> returns (call_result r) \<longrightarrow> returns (call_result n)) \<and>
      (returns (call_toString l) \<and> returns (call_toString r) \<longrightarrow>
         returns (call_toString n))) \<and>
   (Divide l r s = (Inr n, s') \<and> (\<forall>x. fst (call_result r x) = Inr b) \<longrightarrow> \<not> is_zero b)"
proof -
  have "returns (call_result n) \<and> returns (call_toString n)"
    if "Value v s = (Inr n, s')"
    using Value_node [OF that] by (auto simp: returns_return)
  moreover
  have "(returns (call_result l) \<and> returns (call_result r) \<longrightarrow> returns (call_result n)) \<and>
        (returns (call_toString l) \<and> returns (call_toString r) \<longrightarrow>
           returns (call_toString n))"
    if "Add l r s = (Inr n, s') \<or> Subtract l r s = (Inr n, s') \<or>
        Multiply l r s = (Inr n, s') \<or> Divide l r s = (Inr n, s')"
    using binary_node [OF that]
    by (auto simp: returns_binary_result returns_printExpression)
  moreover
  have "\<not> is_zero b"
    if d: "Divide l r s = (Inr n, s')" and b: "\<forall>x. fst (call_result r x) = Inr b"
  proof -
    from b have "fst (call_result r s) = Inr b" by blast
    then obtain s1 where "call_result r s = (Inr b, s1)"
      by (cases "call_result r s") simp
    with d show ?thesis
      by (auto simp: Divide_unfold split: if_splits prod.splits sum.splits)
  qed
  ultimately show ?thesis by blast
qed

theorem nodes_of_returning_operands_return_witness:
  "Value (num 1) 0 = (Inr literal_one, 0) \<and>
   returns (call_result literal_one) \<and> returns (call_toString literal_one) \<and>
   Value (num 2) 0 = (Inr literal_two, 0) \<and>
   returns (call_result literal_two) \<and> returns (call_toString literal_two) \<and>
   Add two three 0 = (Inr five, 0) \<and>
   returns (call_result two) \<and> returns (call_result three) \<and>
   returns (call_toString two) \<and> returns (call_toString three) \<and>
   returns (call_result five) \<and> returns (call_toString five) \<and>
   Divide literal_one literal_two 0 = (Inr half, 0) \<and>
   (\<forall>x. fst (call_result literal_two x) = Inr (Finite 2)) \<and> \<not> is_zero (Finite 2) \<and>
   returns (call_result half) \<and> returns (call_toString half) \<and>
   Multiply five half 0 = (Inr five_halves, 0) \<and>
   returns (call_result five_halves) \<and> returns (call_toString five_halves)"
proof -
  note n = example_nodes
  have leaves: "returns (call_result two)" "returns (call_result three)"
    "returns (call_toString two)" "returns (call_toString three)"
    by (simp_all add: example_leaves returns_return)
  have same: "\<forall>x. fst (call_result literal_two x) = Inr (Finite 2)"
    by (simp add: example_leaves js_return_def)
  have one: "returns (call_result literal_one)" "returns (call_toString literal_one)"
    using nodes_of_returning_operands_return
      [of "num 1" 0 literal_one 0 two three "Finite 2"] n(1) by simp_all
  have two: "returns (call_result literal_two)" "returns (call_toString literal_two)"
    using nodes_of_returning_operands_return
      [of "num 2" 0 literal_two 0 two three "Finite 2"] n(2) by simp_all
  have five: "returns (call_result five)" "returns (call_toString five)"
    using nodes_of_returning_operands_return
      [of "num 1" 0 five 0 two three "Finite 2"] n(3) leaves
    by simp_all
  have half: "returns (call_result half)" "returns (call_toString half)"
    "\<not> is_zero (Finite 2)"
    using nodes_of_returning_operands_return
      [of "num 1" 0 half 0 literal_one literal_two "Finite 2"] n(4) one two same
    by simp_all
  have top: "returns (call_result five_halves)" "returns (call_toString five_halves)"
    using nodes_of_returning_operands_return
      [of "num 1" 0 five_halves 0 five half "Finite 2"] n(5) five half
    by simp_all
  from n leaves same one two five half top show ?thesis by simp
qed

section \<open>Purity\<close>

text \<open>
  C9, as stated, fails: \<^verbatim>\<open>Add\<close> constructs a node from \<^verbatim>\<open>{ result: () => count++ }\<close>
  and \<open>two\<close>; the first \<^verbatim>\<open>result()\<close> of that node returns 2 and changes the state, the
  second returns 3.
\<close>

theorem constructed_node_not_deterministic:
  "Add counter two 0 = (Inr counting_sum, 0) \<and>
   call_result counting_sum 0 = (Inr (Finite 2), 1) \<and>
   call_result counting_sum 1 = (Inr (Finite 3), 2)"
  by (simp add: counting_sum_def Add_unfold counter_def two_def next_count_def
        binary_result_def js_defs numeral_2_eq_2 num_add_def round_double_whole)

text \<open>
  C9, amended.  The \<^verbatim>\<open>result()\<close> and \<^verbatim>\<open>toString()\<close> of every node that \<^verbatim>\<open>Value\<close>
  returns are pure and deterministic.  The \<^verbatim>\<open>result()\<close> of every node that a binary
  constructor returns is so whenever the \<^verbatim>\<open>result()\<close> of both operands is, and its
  \<^verbatim>\<open>toString()\<close> whenever the \<^verbatim>\<open>toString()\<close> of both operands is: hence those of every
  tree that the constructors build from literals and from any other operands of which
  this holds, the repository's or not.  A pure and deterministic function ends the same
  way in every state, returning or raising; it leaves the state, and with it every
  attribute of every object, as it is; a second call ends as the first did, and so
  does a call in any other state.
\<close>

theorem nodes_of_pure_operands_are_pure:
  "(Value v s = (Inr n, s') \<longrightarrow> pure_call (call_result n) \<and> pure_call (call_toString n)) \<and>
   (Add l r s = (Inr n, s') \<or> Subtract l r s = (Inr n, s') \<or>
    Multiply l r s = (Inr n, s') \<or> Divide l r s = (Inr n, s') \<longrightarrow>
      (pure_call (call_result l) \<and> pure_call (call_result r) \<longrightarrow>
         pure_call (call_result n)) \<and>
      (pure_call (call_toString l) \<and> pure_call (call_toString r) \<longrightarrow>
         pure_call (call_toString n))) \<and>
   (pure_call f \<longrightarrow> snd (f x) = x \<and> f (snd (f x)) = f x \<and> fst (f y) = fst (f x))"
proof -
  have "pure_call (call_result n) \<and> pure_call (call_toString n)"
    if "Value v s = (Inr n, s')"
    using Value_node [OF that] by (auto simp: pure_call_return)
  moreover
  have "(pure_call (call_result l) \<and> pure_call (call_result r) \<longrightarrow>
           pure_call (call_result n)) \<and>
        (pure_call (call_toString l) \<and> pure_call (call_toString r) \<longrightarrow>
           pure_call (call_toString n))"
    if "Add l r s = (Inr n, s') \<or> Subtract l r s = (Inr n, s') \<or>
        Multiply l r s = (Inr n, s') \<or> Divide l r s = (Inr n, s')"
    using binary_node [OF that]
    by (auto simp: pure_call_binary_result pure_call_printExpression)
  moreover
  have "snd (f x) = x \<and> f (snd (f x)) = f x \<and> fst (f y) = fst (f x)" if "pure_call f"
  proof -
    from that obtain out where "f z = (out, z)" for z
      unfolding pure_call_def by blast
    then show ?thesis by simp
  qed
  ultimately show ?thesis by blast
qed

theorem nodes_of_pure_operands_are_pure_witness:
  "Value (num 1) 0 = (Inr literal_one, 0) \<and>
   pure_call (call_result literal_one) \<and> pure_call (call_toString literal_one) \<and>
   Value (num 2) 0 = (Inr literal_two, 0) \<and>
   pure_call (call_result literal_two) \<and> pure_call (call_toString literal_two) \<and>
   Add two three 0 = (Inr five, 0) \<and>
   pure_call (call_result two) \<and> pure_call (call_result three) \<and>
   pure_call (call_toString two) \<and> pure_call (call_toString three) \<and>
   pure_call (call_result five) \<and> pure_call (call_toString five) \<and>
   Divide literal_one literal_two 0 = (Inr half, 0) \<and>
   pure_call (call_result half) \<and> pure_call (call_toString half) \<and>
   Multiply five half 0 = (Inr five_halves, 0) \<and>
   pure_call (call_result five_halves) \<and> pure_call (call_toString five_halves) \<and>
   snd (call_result five_halves 0) = 0 \<and>
   call_result five_halves (snd (call_result five_halves 0)) = call_result five_halves 0 \<and>
   fst (call_result five_halves 7) = fst (call_result five_halves 0) \<and>
   snd (call_toString five_halves 0) = 0 \<and>
   call_toString five_halves (snd (call_toString five_halves 0)) =
     call_toString five_halves 0 \<and>
   fst (call_toString five_halves 7) = fst (call_toString five_halves 0)"
proof -
  note n = example_nodes
  have leaves: "pure_call (call_result two)" "pure_call (call_result three)"
    "pure_call (call_toString two)" "pure_call (call_toString three)"
    by (simp_all add: example_leaves pure_call_return)
  have one: "pure_call (call_result literal_one)" "pure_call (call_toString literal_one)"
    using nodes_of_pure_operands_are_pure
      [of "num 1" 0 literal_one 0 two three "call_result two" 0 0] n(1) by simp_all
  have two: "pure_call (call_result literal_two)" "pure_call (call_toString literal_two)"
    using nodes_of_pure_operands_are_pure
      [of "num 2" 0 literal_two 0 two three "call_result two" 0 0] n(2) by simp_all
  have five: "pure_call (call_result five)" "pure_call (call_toString five)"
    using nodes_of_pure_operands_are_pure
      [of "num 1" 0 five 0 two three "call_result two" 0 0] n(3) leaves
    by simp_all
  have half: "pure_call (call_result half)" "pure_call (call_toString half)"
    using nodes_of_pure_operands_are_pure
      [of "num 1" 0 half 0 literal_one literal_two "call_result two" 0 0]
      n(4) one two
    by simp_all
  have top: "pure_call (call_result five_halves)" "pure_call (call_toString five_halves)"
    using nodes_of_pure_operands_are_pure
      [of "num 1" 0 five_halves 0 five half "call_result two" 0 0] n(5) five half
    by simp_all
  have calls: "snd (call_result five_halves 0) = 0"
    "call_result five_halves (snd (call_result five_halves 0)) = call_result five_halves 0"
    "fst (call_result five_halves 7) = fst (call_result five_halves 0)"
    using nodes_of_pure_operands_are_pure
      [of "num 1" 0 five_halves 0 five half "call_result five_halves" 0 7] top(1)
    by simp_all
  have texts: "snd (call_toString five_halves 0) = 0"
    "call_toString five_halves (snd (call_toString five_halves 0)) =
       call_toString five_halves 0"
    "fst (call_toString five_halves 7) = fst (call_toString five_halves 0)"
    using nodes_of_pure_operands_are_pure
      [of "num 1" 0 five_halves 0 five half "call_toString five_halves" 0 7] top(2)
    by simp_all
  from n leaves one two five half top calls texts show ?thesis by simp
qed

end
